(* ===== verification/Prelude.thy ===== *)
theory Prelude
  imports Complex_Main "HOL-Library.Word" "HOL-Library.Sublist"
begin

text \<open>
  Shared vocabulary of the agimus-vision tag-tracker model: the C++ integer types the
  source uses (\<open>int\<close> as a 32-bit word, \<open>size_t\<close> as a 64-bit word), the two kinds of
  failure a C++ expression of the source can have (an exception and undefined behaviour),
  the collections of rewrite rules the component theories extend, and generic lemmas on
  suffixes, list indexing and word conversions that several components use.
\<close>

section \<open>Collections\<close>

named_theorems cpp_simps "evaluation rules of the modelled C++ standard-library calls"
named_theorems detector_simps "evaluation rules of the detector operations"

section \<open>Types\<close>

type_synonym cint = "32 word"
type_synonym size_t = "64 word"

text \<open>
  \<open>Out_of_range\<close> is the \<open>std::out_of_range\<close> exception thrown by
  \<open>std::string::compare\<close> when its position is past the end of the string;
  \<open>Undefined_behaviour\<close> is an access \<open>v[i]\<close> of a \<open>std::vector\<close> with
  \<open>i \<ge> v.size()\<close>, which the C++ standard leaves undefined.
\<close>

datatype cpp_error = Out_of_range | Undefined_behaviour

text \<open>Sequencing of a computation that may fail, as an exception propagates.\<close>

definition then_ok :: "cpp_error + 'a \<Rightarrow> ('a \<Rightarrow> cpp_error + 'b) \<Rightarrow> cpp_error + 'b" where
  "then_ok r f = (case r of Inl e \<Rightarrow> Inl e | Inr v \<Rightarrow> f v)"

lemma then_ok_simps [simp]:
  "then_ok (Inl e) f = Inl e"
  "then_ok (Inr v) f = f v"
  by (simp_all add: then_ok_def)

lemma then_ok_Inr_iff:
  "then_ok r f = Inr w \<longleftrightarrow> (\<exists>v. r = Inr v \<and> f v = Inr w)"
  by (cases r) simp_all

section \<open>Suffixes\<close>

text \<open>
  The comparison of the last \<open>length t\<close> characters of \<open>s\<close> with \<open>t\<close> decides
  whether \<open>t\<close> is a suffix of \<open>s\<close>.
\<close>

lemma drop_diff_eq_suffix:
  assumes "length t \<le> length s"
  shows "(drop (length s - length t) s = t) = suffix t s"
proof
  assume "drop (length s - length t) s = t"
  then show "suffix t s" by (metis suffix_drop)
next
  assume "suffix t s"
  then obtain zs where "s = zs @ t" by (auto elim: suffixE)
  then show "drop (length s - length t) s = t" by simp
qed

text \<open>
  Two suffixes that both start with a separator character and contain no other
  occurrence of it are equal: the shorter would otherwise lie inside the longer one,
  separator included.
\<close>

lemma suffix_Cons_sep:
  assumes "suffix (c # a) (c # b)" and "c \<notin> set b"
  shows "a = b"
proof -
  have "c # a = c # b \<or> suffix (c # a) b"
    using assms(1) by (auto simp: suffix_def Cons_eq_append_conv)
  moreover have "\<not> suffix (c # a) b"
    using assms(2) set_mono_suffix by fastforce
  ultimately show ?thesis by simp
qed

lemma suffix_sep_unique:
  assumes "suffix (c # a) s" and "suffix (c # b) s"
    and "c \<notin> set a" and "c \<notin> set b"
  shows "a = b"
  using suffix_same_cases [OF assms(1,2)]
  by (metis assms(3,4) suffix_Cons_sep)

section \<open>Lists\<close>

lemma find_first_match:
  "find P pre = None \<Longrightarrow> P x \<Longrightarrow> find P (pre @ x # post) = Some x"
  by (induction pre) auto

lemma list_all2_set_left:
  "list_all2 P xs ys \<Longrightarrow> x \<in> set xs \<Longrightarrow> \<exists>y \<in> set ys. P x y"
  by (induction xs ys rule: list_all2_induct) auto

section \<open>Sizes as \<open>size_t\<close>\<close>

text \<open>A length below \<open>2^64\<close> survives the round trip through \<open>size_t\<close>.\<close>

lemma unat_size_t [simp]:
  "n < 2 ^ 64 \<Longrightarrow> unat (word_of_nat n :: size_t) = n"
  by (simp add: unat_of_nat)

lemma size_t_le_iff:
  assumes "m < 2 ^ 64" and "n < 2 ^ 64"
  shows "(word_of_nat m \<le> (word_of_nat n :: size_t)) = (m \<le> n)"
  using assms by (simp add: word_le_nat_alt)

lemma size_t_diff:
  assumes "m \<le> n" and "n < 2 ^ 64"
  shows "unat (word_of_nat n - word_of_nat m :: size_t) = n - m"
proof -
  have "m < 2 ^ 64" using assms by simp
  then have "(word_of_nat m :: size_t) \<le> word_of_nat n"
    using assms by (simp add: size_t_le_iff)
  then show ?thesis
    using assms \<open>m < 2 ^ 64\<close> by (simp add: unat_sub)
qed

end
