(* ===== verification/Cpp_String.thy ===== *)
theory Cpp_String
  imports Prelude
begin

text \<open>
  The two standard-library string operations that the tag matcher of
  \<open>DetectorAprilTag::detect\<close> (src/src/tracker_object/detector_apriltag.cpp, lines 35-42)
  relies on: \<open>std::to_string\<close> of an \<open>int\<close> (decimal digits, a leading minus sign for
  negative values) and \<open>std::string::compare(pos, len, str)\<close>, which throws
  \<open>std::out_of_range\<close> when \<open>pos\<close> is past the end and otherwise compares the
  substring \<open>[pos, pos + len)\<close>, clipped to the string, lexicographically by unsigned
  character value, a proper prefix being smaller. A decimal parser is the reference
  against which \<open>std::to_string\<close> is shown to lose no information.
\<close>

section \<open>\<open>std::to_string\<close>\<close>

definition digit_char :: "nat \<Rightarrow> char" where
  "digit_char d = ''0123456789'' ! d"

fun digits_nat :: "nat \<Rightarrow> string" where
  "digits_nat n =
     (if n < 10 then [digit_char n] else digits_nat (n div 10) @ [digit_char (n mod 10)])"

declare digits_nat.simps [simp del]

definition to_string_int :: "int \<Rightarrow> string" where
  "to_string_int i =
     (if i < 0 then CHR ''-'' # digits_nat (nat (- i)) else digits_nat (nat i))"

text \<open>\<open>std::to_string(int)\<close>: the C++ \<open>int\<close> is read as two's complement.\<close>

definition to_string :: "cint \<Rightarrow> string" where
  "to_string v = to_string_int (sint v)"

section \<open>A decimal parser\<close>

definition is_dec_digit :: "char \<Rightarrow> bool" where
  "is_dec_digit c \<longleftrightarrow> 48 \<le> (of_char c :: nat) \<and> (of_char c :: nat) < 58"

definition digit_val :: "char \<Rightarrow> nat" where
  "digit_val c = of_char c - 48"

fun parse_digits :: "nat \<Rightarrow> string \<Rightarrow> nat option" where
  "parse_digits acc [] = Some acc"
| "parse_digits acc (c # cs) =
     (if is_dec_digit c then parse_digits (10 * acc + digit_val c) cs else None)"

definition parse_int :: "string \<Rightarrow> int option" where
  "parse_int s =
     (case s of
        [] \<Rightarrow> None
      | c # cs \<Rightarrow>
          if c = CHR ''-'' then
            (if cs = [] then None else map_option (\<lambda>n. - int n) (parse_digits 0 cs))
          else map_option int (parse_digits 0 s))"

section \<open>\<open>std::string::size\<close> and \<open>std::string::compare\<close>\<close>

definition str_size :: "string \<Rightarrow> size_t" where
  "str_size s = word_of_nat (length s)"

fun lex_compare :: "string \<Rightarrow> string \<Rightarrow> int" where
  "lex_compare [] [] = 0"
| "lex_compare [] (b # bs) = -1"
| "lex_compare (a # as) [] = 1"
| "lex_compare (a # as) (b # bs) =
     (if (of_char a :: nat) < of_char b then -1
      else if (of_char b :: nat) < of_char a then 1
      else lex_compare as bs)"

definition str_compare :: "string \<Rightarrow> size_t \<Rightarrow> size_t \<Rightarrow> string \<Rightarrow> cpp_error + int" where
  "str_compare s pos len t =
     (if length s < unat pos then Inl Out_of_range
      else Inr (lex_compare (take (unat len) (drop (unat pos) s)) t))"

section \<open>Properties of the decimal representation\<close>

lemma digit_char_digit [simp]:
  assumes "d < 10"
  shows "is_dec_digit (digit_char d)" and "digit_val (digit_char d) = d"
proof -
  have "d \<in> {0, 1, 2, 3, 4, 5, 6, 7, 8, 9}"
    using assms by auto
  then have "of_char (digit_char d) = (48 + d :: nat)"
    by (auto simp: digit_char_def)
  then show "is_dec_digit (digit_char d)" and "digit_val (digit_char d) = d"
    using assms by (simp_all add: is_dec_digit_def digit_val_def)
qed

lemma digits_nat_nonempty [simp]: "digits_nat n \<noteq> []"
  by (subst digits_nat.simps) simp

lemma digits_nat_digits: "c \<in> set (digits_nat n) \<Longrightarrow> is_dec_digit c"
proof (induction n rule: digits_nat.induct)
  case (1 n)
  then show ?case
    by (subst (asm) digits_nat.simps) (auto split: if_splits)
qed

lemma digit_not_sep [simp]:
  "\<not> is_dec_digit (CHR '' '')" "\<not> is_dec_digit (CHR ''-'')"
  by (simp_all add: is_dec_digit_def)

lemma parse_digits_append:
  "parse_digits acc (xs @ ys) =
     (case parse_digits acc xs of None \<Rightarrow> None | Some a \<Rightarrow> parse_digits a ys)"
  by (induction acc xs rule: parse_digits.induct) simp_all

lemma parse_digits_digits_nat:
  "parse_digits acc (digits_nat n) = Some (acc * 10 ^ length (digits_nat n) + n)"
proof (induction n arbitrary: acc rule: digits_nat.induct)
  case (1 n)
  show ?case
  proof (cases "n < 10")
    case True
    then show ?thesis by (subst (1 2) digits_nat.simps) simp
  next
    case False
    let ?d = "digits_nat (n div 10)"
    have IH: "parse_digits acc ?d = Some (acc * 10 ^ length ?d + n div 10)"
      using "1.IH" False by simp
    have "n = 10 * (n div 10) + n mod 10" by simp
    then have "10 * (acc * 10 ^ length ?d + n div 10) + n mod 10
               = acc * 10 ^ Suc (length ?d) + n"
      by (simp add: algebra_simps)
    with False IH show ?thesis
      by (subst (1 2) digits_nat.simps) (simp add: parse_digits_append)
  qed
qed

lemma parse_digits_nat: "parse_digits 0 (digits_nat n) = Some n"
  by (simp add: parse_digits_digits_nat)

lemma digits_nat_hd_not_minus: "hd (digits_nat n) \<noteq> CHR ''-''"
  using digits_nat_digits [of "hd (digits_nat n)" n] by (metis digit_not_sep(2) digits_nat_nonempty list.set_sel(1))

lemma to_string_int_no_space: "CHR '' '' \<notin> set (to_string_int i)"
proof
  assume "CHR '' '' \<in> set (to_string_int i)"
  then have "CHR '' '' \<in> set (digits_nat (nat (- i))) \<or> CHR '' '' \<in> set (digits_nat (nat i))"
    by (auto simp: to_string_int_def split: if_splits)
  then show False
    using digits_nat_digits digit_not_sep(1) by blast
qed

lemma to_string_no_space [cpp_simps]: "CHR '' '' \<notin> set (to_string v)"
  by (simp add: to_string_def to_string_int_no_space)

text \<open>Round trip: the decimal text of an integer parses back to it.\<close>

lemma parse_int_to_string_int [cpp_simps]: "parse_int (to_string_int i) = Some i"
proof (cases "i < 0")
  case True
  then show ?thesis
    by (simp add: to_string_int_def parse_int_def parse_digits_nat)
next
  case False
  obtain c cs where d: "digits_nat (nat i) = c # cs"
    using digits_nat_nonempty by (meson neq_Nil_conv)
  have "c \<noteq> CHR ''-''"
    using digits_nat_hd_not_minus [of "nat i"] d by simp
  moreover have "parse_digits 0 (c # cs) = Some (nat i)"
    using parse_digits_nat [of "nat i"] d by simp
  ultimately show ?thesis
    using False d by (simp add: to_string_int_def parse_int_def del: parse_digits.simps)
qed

lemma to_string_inj:
  assumes "to_string v = to_string w"
  shows "v = w"
proof -
  have "Some (sint v) = Some (sint w)"
    using assms parse_int_to_string_int by (metis to_string_def)
  then show ?thesis by (simp add: signed_word_eqI)
qed

section \<open>Comparison and length of the decimal text\<close>

lemma lex_compare_eq_0 [cpp_simps]: "(lex_compare a b = 0) = (a = b)"
  by (induction a b rule: lex_compare.induct) (auto simp: linorder_neq_iff)

lemma length_digits_nat_le: "n < 10 ^ k \<Longrightarrow> 0 < k \<Longrightarrow> length (digits_nat n) \<le> k"
proof (induction n arbitrary: k rule: digits_nat.induct)
  case (1 n)
  show ?case
  proof (cases "n < 10")
    case True
    then show ?thesis using "1.prems" by (subst digits_nat.simps) simp
  next
    case False
    obtain j where k: "k = Suc j" using "1.prems"(2) by (cases k) auto
    have j: "0 < j"
    proof (rule ccontr)
      assume "\<not> 0 < j"
      then have "n < 10" using "1.prems"(1) k by simp
      with False show False by simp
    qed
    have "n div 10 < 10 ^ j" using "1.prems"(1) k by (simp add: less_mult_imp_div_less mult.commute)
    then have "length (digits_nat (n div 10)) \<le> j" using "1.IH" False j by simp
    then show ?thesis using False k by (subst digits_nat.simps) simp
  qed
qed

text \<open>A 32-bit \<open>int\<close> has at most ten digits and a sign.\<close>

lemma length_to_string_le: "length (to_string v) \<le> 11"
proof -
  have "- (2 ^ 31) \<le> sint v" and "sint v < 2 ^ 31"
    using sint_ge [of v] sint_lt [of v] by simp_all
  then have a: "nat (- sint v) < 10 ^ 10" and b: "nat (sint v) < 10 ^ 10" by simp_all
  show ?thesis
    using length_digits_nat_le [OF a] length_digits_nat_le [OF b]
    by (simp add: to_string_def to_string_int_def)
qed

end
