(* ===== verification/Tag_Match.thy ===== *)
theory Tag_Match
  imports Cpp_String
begin

text \<open>
  The message filter of \<open>DetectorAprilTag::detect\<close>
  (src/src/tracker_object/detector_apriltag.cpp, lines 35-42): a decoded tag message
  belongs to the detector when it ends with a space followed by the decimal text of the
  detector's \<open>_tag_id\<close>. The source tests this with \<open>size_t\<close> arithmetic,
  \<open>stag <= smsg && msg.compare(smsg - stag, stag, tag) == 0\<close>; the guard keeps the
  unsigned subtraction from wrapping and \<open>compare\<close> from throwing. The lemmas show that
  the test is exactly the suffix relation of \<open>HOL-Library.Sublist\<close>, that no message
  matches two identifiers.
\<close>

section \<open>Definitions\<close>

text \<open>Line 35: \<open>std::string tag = " " + std::to_string( _tag_id );\<close>\<close>

definition tag_string :: "cint \<Rightarrow> string" where
  "tag_string tag_id = CHR '' '' # to_string tag_id"

text \<open>Lines 37-42: the suffix test, \<open>&&\<close> short-circuiting the \<open>compare\<close> call.\<close>

definition ends_with_tag :: "string \<Rightarrow> string \<Rightarrow> cpp_error + bool" where
  "ends_with_tag msg tag =
     (let stag = str_size tag; smsg = str_size msg
      in if stag \<le> smsg
         then then_ok (str_compare msg (smsg - stag) stag tag) (\<lambda>c. Inr (c = 0))
         else Inr False)"

definition tag_matches :: "cint \<Rightarrow> string \<Rightarrow> cpp_error + bool" where
  "tag_matches tag_id msg = ends_with_tag msg (tag_string tag_id)"

section \<open>Helper lemmas\<close>

lemma length_tag_string: "length (tag_string v) < 2 ^ 64"
proof -
  have "length (tag_string v) \<le> 12"
    using length_to_string_le [of v] by (simp add: tag_string_def)
  then show ?thesis by simp
qed

section \<open>The test computes the suffix relation\<close>

lemma ends_with_tag_long:
  assumes "length tag \<le> length msg" and "length msg < 2 ^ 64"
  shows "ends_with_tag msg tag = Inr (suffix tag msg)"
proof -
  have lt: "length tag < 2 ^ 64" using assms by simp
  have guard: "str_size tag \<le> str_size msg"
    using assms lt by (simp add: str_size_def size_t_le_iff)
  have pos: "unat (str_size msg - str_size tag) = length msg - length tag"
    using assms by (simp add: str_size_def size_t_diff)
  have len: "unat (str_size tag) = length tag"
    using lt by (simp add: str_size_def)
  have "str_compare msg (str_size msg - str_size tag) (str_size tag) tag
        = Inr (lex_compare (drop (length msg - length tag) msg) tag)"
    using assms(1) by (simp add: str_compare_def pos len)
  then show ?thesis
    using guard assms(1)
    by (simp add: ends_with_tag_def Let_def lex_compare_eq_0 drop_diff_eq_suffix)
qed

lemma ends_with_tag_short:
  assumes "length msg < length tag" and "length tag < 2 ^ 64"
  shows "ends_with_tag msg tag = Inr False"
proof -
  have "\<not> str_size tag \<le> str_size msg"
    using assms by (simp add: str_size_def size_t_le_iff)
  then show ?thesis by (simp add: ends_with_tag_def)
qed

lemma ends_with_tag_eq:
  assumes "length msg < 2 ^ 64" and "length tag < 2 ^ 64"
  shows "ends_with_tag msg tag = Inr (suffix tag msg)"
proof (cases "length tag \<le> length msg")
  case True
  then show ?thesis using assms(1) by (rule ends_with_tag_long)
next
  case False
  then have "\<not> suffix tag msg" using suffix_length_le by fastforce
  with False assms(2) show ?thesis by (simp add: ends_with_tag_short)
qed

lemma tag_matches_eq [detector_simps]:
  assumes "length msg < 2 ^ 64"
  shows "tag_matches tag_id msg = Inr (suffix (tag_string tag_id) msg)"
  unfolding tag_matches_def using assms length_tag_string by (rule ends_with_tag_eq)

text \<open>The rules that evaluate the tag text of a concrete identifier.\<close>

lemmas tag_text_eval = tag_string_def to_string_def to_string_int_def digits_nat.simps
  digit_char_def suffix_to_prefix

section \<open>Properties of the message filter\<close>

text \<open>
  C8 (functional): for every message whose length fits \<open>size_t\<close>, the test of lines
  35-42 throws nothing and accepts the message exactly when it is some text followed by a
  space and the decimal text of the identifier; in particular the guard
  \<open>stag <= smsg\<close> keeps the unsigned subtraction from wrapping.
\<close>

theorem tag_matches_iff:
  assumes "length msg < 2 ^ 64"
  shows "tag_matches tag_id msg = Inr (\<exists>pre. msg = pre @ CHR '' '' # to_string tag_id)"
  using assms by (simp add: tag_matches_eq suffix_def tag_string_def)

theorem tag_matches_iff_witness:
  "length ''36h11 id: 7'' < (2::nat) ^ 64 \<and>
   tag_matches 7 ''36h11 id: 7'' =
     Inr (\<exists>pre. ''36h11 id: 7'' = pre @ CHR '' '' # to_string 7)"
  using tag_matches_iff [of "''36h11 id: 7''" 7] by simp

text \<open>
  C9 (safety): a message is accepted by at most one tag identifier, so two detectors
  with different identifiers never claim the same detection.
\<close>

theorem tag_matches_unique:
  assumes "length msg < 2 ^ 64"
    and "tag_matches i msg = Inr True" and "tag_matches j msg = Inr True"
  shows "i = j"
proof -
  have "suffix (CHR '' '' # to_string i) msg" and "suffix (CHR '' '' # to_string j) msg"
    using assms by (simp_all add: tag_matches_eq tag_string_def)
  then have "to_string i = to_string j"
    by (rule suffix_sep_unique) (simp_all add: to_string_no_space)
  then show ?thesis by (rule to_string_inj)
qed

theorem tag_matches_unique_witness:
  "length ''36h11 12'' < (2::nat) ^ 64 \<and> tag_matches 12 ''36h11 12'' = Inr True \<and>
   tag_matches 12 ''36h11 12'' = Inr True"
  using tag_matches_unique [of "''36h11 12''" 12 12]
  by (simp add: tag_matches_eq tag_string_def to_string_def to_string_int_def
      digits_nat.simps digit_char_def suffix_to_prefix)

end
