(* ===== verification/Camera.thy ===== *)
theory Camera
  imports Prelude
begin

text \<open>
  The camera model the detector uses: ViSP's \<open>vpCameraParameters\<close> for a perspective
  projection without distortion (focal lengths in pixels \<open>px\<close>, \<open>py\<close> and principal
  point \<open>u0\<close>, \<open>v0\<close>), the pixel coordinates \<open>vpImagePoint\<close> (row \<open>i\<close>, column
  \<open>j\<close>, with \<open>u = j\<close> and \<open>v = i\<close>), and the conversion from pixels to
  normalised image-plane metres that \<open>DetectorAprilTag::computePose\<close>
  (src/src/tracker_object/detector_apriltag.cpp, line 106) calls,
  \<open>vpPixelMeterConversion::convertPointWithoutDistortion\<close>. The library function is
  modelled from its documented formula, ViSP computing \<open>(u - u0) * inv_px\<close> with
  \<open>inv_px = 1 / px\<close>, over reals rather than doubles.
\<close>

record cam_params =
  px :: real
  py :: real
  u0 :: real
  v0 :: real

record image_point =
  ip_i :: real
  ip_j :: real

definition get_u :: "image_point \<Rightarrow> real" where
  "get_u ip = ip_j ip"

definition get_v :: "image_point \<Rightarrow> real" where
  "get_v ip = ip_i ip"

definition convertPointWithoutDistortion :: "cam_params \<Rightarrow> image_point \<Rightarrow> real \<times> real" where
  "convertPointWithoutDistortion cam ip =
     ((get_u ip - u0 cam) * (1 / px cam), (get_v ip - v0 cam) * (1 / py cam))"

end
