(* ===== verification/Geometry.thy ===== *)
theory Geometry
  imports Prelude
begin

text \<open>
  The geometry of one marker: ViSP's \<open>vpPoint\<close> (object-frame coordinates \<open>oX, oY, oZ\<close>
  and normalised image-plane coordinates \<open>x, y\<close>, here \<open>img_x, img_y\<close>), the rigid
  transform \<open>vpHomogeneousMatrix\<close> (rotation rows and translation), the projection
  \<open>vpPoint::track\<close> (change to the camera frame, then \<open>x = X / Z\<close>, \<open>y = Y / Z\<close>),
  the reprojection residual \<open>vpPose::computeResidual\<close> (sum over the points of the
  squared distance between the stored and the reprojected image-plane coordinates), and
  \<open>DetectorAprilTag::compute3DPoints\<close>
  (src/src/tracker_object/detector_apriltag.cpp, lines 128-140), which builds the four
  corners of the square tag by updating one \<open>vpPoint\<close> and pushing copies of it.
\<close>

type_synonym vec3 = "real \<times> real \<times> real"

record hmatrix =
  rot :: "vec3 \<times> vec3 \<times> vec3"
  trans :: vec3

definition hm_identity :: hmatrix where
  "hm_identity = \<lparr>rot = ((1, 0, 0), (0, 1, 0), (0, 0, 1)), trans = (0, 0, 0)\<rparr>"

definition dot3 :: "vec3 \<Rightarrow> vec3 \<Rightarrow> real" where
  "dot3 a b = (case (a, b) of ((a1, a2, a3), (b1, b2, b3)) \<Rightarrow> a1 * b1 + a2 * b2 + a3 * b3)"

definition hm_apply :: "hmatrix \<Rightarrow> vec3 \<Rightarrow> vec3" where
  "hm_apply M p =
     (case (rot M, trans M) of ((r1, r2, r3), (t1, t2, t3)) \<Rightarrow>
        (dot3 r1 p + t1, dot3 r2 p + t2, dot3 r3 p + t3))"

record vp_point =
  oX :: real
  oY :: real
  oZ :: real
  img_x :: real
  img_y :: real

text \<open>\<open>vpPoint()\<close>: every coordinate zero.\<close>

definition vp_point_default :: vp_point where
  "vp_point_default = \<lparr>oX = 0, oY = 0, oZ = 0, img_x = 0, img_y = 0\<rparr>"

definition project :: "hmatrix \<Rightarrow> vp_point \<Rightarrow> real \<times> real" where
  "project M p =
     (case hm_apply M (oX p, oY p, oZ p) of (cX, cY, cZ) \<Rightarrow> (cX / cZ, cY / cZ))"

definition track :: "hmatrix \<Rightarrow> vp_point \<Rightarrow> vp_point" where
  "track M p = p\<lparr>img_x := fst (project M p), img_y := snd (project M p)\<rparr>"

definition computeResidual :: "vp_point list \<Rightarrow> hmatrix \<Rightarrow> real" where
  "computeResidual ps M =
     sum_list (map (\<lambda>p. (img_x p - img_x (track M p))\<^sup>2 + (img_y p - img_y (track M p))\<^sup>2) ps)"

text \<open>Lines 128-140.\<close>

definition compute3DPoints :: "real \<Rightarrow> vp_point list" where
  "compute3DPoints tag_size_meters =
     (let pt0 = vp_point_default\<lparr>oZ := 0\<rparr>;
          pt1 = pt0\<lparr>oX := - tag_size_meters / 2, oY := - tag_size_meters / 2\<rparr>;
          pt2 = pt1\<lparr>oX := tag_size_meters / 2, oY := - tag_size_meters / 2\<rparr>;
          pt3 = pt2\<lparr>oX := tag_size_meters / 2, oY := tag_size_meters / 2\<rparr>;
          pt4 = pt3\<lparr>oX := - tag_size_meters / 2, oY := tag_size_meters / 2\<rparr>
      in [pt1, pt2, pt3, pt4])"

definition dist2 :: "real \<times> real \<Rightarrow> real \<times> real \<Rightarrow> real" where
  "dist2 a b = (fst a - fst b)\<^sup>2 + (snd a - snd b)\<^sup>2"

definition planar :: "vp_point \<Rightarrow> real \<times> real" where
  "planar p = (oX p, oY p)"

section \<open>Lemmas\<close>

lemma length_compute3DPoints [simp]: "length (compute3DPoints s) = 4"
  by (simp add: compute3DPoints_def Let_def)

lemma track_oXYZ [simp]:
  "oX (track M p) = oX p" "oY (track M p) = oY p" "oZ (track M p) = oZ p"
  by (simp_all add: track_def)

lemma compute3DPoints_corners:
  "map planar (compute3DPoints s) =
     [(- s / 2, - s / 2), (s / 2, - s / 2), (s / 2, s / 2), (- s / 2, s / 2)]"
  "map oZ (compute3DPoints s) = [0, 0, 0, 0]"
  by (simp_all add: compute3DPoints_def vp_point_default_def planar_def Let_def)

section \<open>Properties\<close>

text \<open>
  C19 (functional): \<open>compute3DPoints\<close> yields a planar square of side \<open>tag_size\<close>
  centred on the marker origin: the four corners lie in the plane \<open>z = 0\<close>, consecutive
  corners (the last closing back to the first) are at squared distance
  \<open>tag_size\<^sup>2\<close>, the diagonals at \<open>2 * tag_size\<^sup>2\<close>, and the corners sum to the origin.
\<close>

theorem compute3DPoints_square:
  "let P = map planar (compute3DPoints s) in
     map2 dist2 P (rotate1 P) = [s\<^sup>2, s\<^sup>2, s\<^sup>2, s\<^sup>2]
     \<and> dist2 (P ! 0) (P ! 2) = 2 * s\<^sup>2 \<and> dist2 (P ! 1) (P ! 3) = 2 * s\<^sup>2
     \<and> sum_list (map fst P) = 0 \<and> sum_list (map snd P) = 0
     \<and> map oZ (compute3DPoints s) = [0, 0, 0, 0]"
  unfolding compute3DPoints_corners Let_def
  by (simp add: dist2_def power2_eq_square algebra_simps)

end
