(* ===== verification/Detector.thy ===== *)
theory Detector
  imports Tag_Match Camera Geometry
begin

text \<open>
  \<open>DetectorAprilTag\<close> (src/src/tracker_object/detector_apriltag.cpp): one object per
  configured tag identifier, holding its camera parameters, identifier, tag size, the
  acquisition state, the four image corners of the last detection, the pose \<open>_cMo\<close>
  and the residual \<open>_error\<close>. All detectors share two static members, the ViSP tag
  detector \<open>Apriltag_detector\<close> (whose output, the decoded messages and corner polygons of
  the last image, is \<open>detections\<close> here) and the depth map \<open>_depth\<close> (lines 13-14).
  The pose solvers are ViSP library calls; they are parameters of the model, gathered in
  the record \<open>pose_lib\<close>: \<open>vpPose::computePoseRGBD\<close> (\<open>None\<close> when it returns
  \<open>false\<close> and leaves its output untouched) and \<open>vpPose::computePose(VIRTUAL_VS, cMo)\<close>,
  which refines a pose from the current one. The tag recognition engine
  \<open>vpDetectorAprilTag::detect\<close> is a parameter \<open>engine\<close> of \<open>analyseImage\<close>.
  A C++ call that may throw or read out of range returns \<open>cpp_error + _\<close>.
\<close>

section \<open>Data\<close>

datatype tag_state = no_object | newly_acquired_object | already_acquired_object

type_synonym depth_map = "real list list"
type_synonym detection = "string \<times> image_point list"

record apriltag_shared =
  detections :: "detection list"
  depth :: depth_map

record detector_apriltag =
  cam_parameters :: cam_params
  tag_id :: cint
  tag_size_meters :: real
  state :: tag_state
  image_points :: "image_point list"
  cMo :: hmatrix
  error :: real

record pose_lib =
  computePoseRGBD :: "depth_map \<Rightarrow> image_point list \<Rightarrow> cam_params \<Rightarrow> real \<Rightarrow> hmatrix option"
  computePoseVVS :: "vp_point list \<Rightarrow> hmatrix \<Rightarrow> hmatrix"

section \<open>Operations\<close>

text \<open>
  Lines 17-21. The members the constructor does not initialise get the defaults of the
  base class \<open>Detector\<close> and of their types: no object, no corners, the identity pose.
\<close>

definition new_detector :: "cam_params \<Rightarrow> cint \<Rightarrow> real \<Rightarrow> detector_apriltag" where
  "new_detector cam tid sz =
     \<lparr>cam_parameters = cam, tag_id = tid, tag_size_meters = sz,
      state = no_object, image_points = [], cMo = hm_identity, error = 0\<rparr>"

text \<open>Lines 23-27: cache the depth map and run the recognition engine once per frame.\<close>

definition analyseImage ::
  "('img \<Rightarrow> detection list) \<Rightarrow> 'img \<Rightarrow> depth_map \<Rightarrow> apriltag_shared \<Rightarrow> bool \<times> apriltag_shared" where
  "analyseImage engine gray_image d sh =
     (let sh' = sh\<lparr>depth := d, detections := engine gray_image\<rparr>
      in (detections sh' \<noteq> [], sh'))"

text \<open>
  Lines 100-112: the image-plane coordinates of the first \<open>points.size()\<close> corners, in
  metres, paired with the 3D corners; \<open>_image_points[i]\<close> past the end is undefined.
\<close>

definition image_plane_points ::
  "cam_params \<Rightarrow> image_point list \<Rightarrow> vp_point list \<Rightarrow> cpp_error + vp_point list" where
  "image_plane_points cam ips points =
     (if length ips < length points then Inl Undefined_behaviour
      else Inr (map2 (\<lambda>pt ip. case convertPointWithoutDistortion cam ip of
                                 (x, y) \<Rightarrow> pt\<lparr>img_x := x, img_y := y\<rparr>) points ips))"

text \<open>Lines 94-126.\<close>

definition computePose ::
  "pose_lib \<Rightarrow> apriltag_shared \<Rightarrow> detector_apriltag \<Rightarrow> cpp_error + bool \<times> detector_apriltag" where
  "computePose L sh d =
     (if state d = no_object then Inr (False, d)
      else then_ok (image_plane_points (cam_parameters d) (image_points d)
                      (compute3DPoints (tag_size_meters d)))
        (\<lambda>points.
           if state d = newly_acquired_object then
             Inr (True, d\<lparr>cMo := (case computePoseRGBD L (depth sh) (image_points d)
                                        (cam_parameters d) (tag_size_meters d) of
                                   None \<Rightarrow> cMo d | Some M \<Rightarrow> M)\<rparr>)
           else
             (let M = computePoseVVS L points (cMo d)
              in Inr (True, d\<lparr>cMo := M, error := computeResidual points M\<rparr>))))"

text \<open>Lines 33-60: the loop over the detections; the first accepted message wins.\<close>

fun detect_loop ::
  "pose_lib \<Rightarrow> apriltag_shared \<Rightarrow> detector_apriltag \<Rightarrow> detection list
     \<Rightarrow> cpp_error + bool \<times> detector_apriltag" where
  "detect_loop L sh d [] = Inr (False, d\<lparr>state := no_object\<rparr>)"
| "detect_loop L sh d ((msg, polygon) # rest) =
     then_ok (tag_matches (tag_id d) msg) (\<lambda>found.
       if found then
         (let d1 = d\<lparr>image_points := polygon,
                     state := (if state d = no_object then newly_acquired_object
                               else already_acquired_object)\<rparr>
          in then_ok (computePose L sh d1)
               (\<lambda>(ok, d2). if ok then Inr (True, d2) else Inr (False, d2\<lparr>state := no_object\<rparr>)))
       else detect_loop L sh d rest)"

text \<open>Lines 29-61: clear the corners, then scan.\<close>

definition detect ::
  "pose_lib \<Rightarrow> apriltag_shared \<Rightarrow> detector_apriltag \<Rightarrow> cpp_error + bool \<times> detector_apriltag" where
  "detect L sh d = detect_loop L sh (d\<lparr>image_points := []\<rparr>) (detections sh)"

text \<open>Lines 63-73: the debug overlay as the list of drawing calls it makes.\<close>

datatype vp_color = red | green | blue | cyan | vp_none

datatype draw_cmd =
    DisplayLine image_point image_point vp_color nat
  | DisplayFrame hmatrix cam_params real vp_color

definition drawDebug :: "detector_apriltag \<Rightarrow> cpp_error + draw_cmd list" where
  "drawDebug d =
     (if state d = no_object then Inr []
      else if length (image_points d) < 4 then Inl Undefined_behaviour
      else
        (let colors = [red, green, blue, cyan]; pts = image_points d
         in Inr (map (\<lambda>i. DisplayLine (pts ! i) (pts ! (if i = 3 then 0 else i + 1)) (colors ! i) 3)
                   [0..<4]
                 @ [DisplayFrame (cMo d) (cam_parameters d) (tag_size_meters d * 2) vp_none])))"

section \<open>Specification\<close>

text \<open>
  The abstract acquisition machine of the spec (section 4.2): the next state is a function
  of the previous state, of whether the tag was found in this frame and of whether its pose
  could be computed.
\<close>

definition acquisition_step :: "tag_state \<Rightarrow> bool \<Rightarrow> bool \<Rightarrow> tag_state" where
  "acquisition_step s found posed =
     (if found \<and> posed then (if s = no_object then newly_acquired_object else already_acquired_object)
      else no_object)"

text \<open>
  A frame as ViSP delivers it: every message fits a \<open>std::string\<close> of \<open>size_t\<close> length
  and every tag polygon has four corners.
\<close>

definition frame_wf :: "apriltag_shared \<Rightarrow> bool" where
  "frame_wf sh \<longleftrightarrow>
     list_all (\<lambda>(msg, polygon). length msg < 2 ^ 64 \<and> length polygon = 4) (detections sh)"

definition tag_found :: "cint \<Rightarrow> detection \<Rightarrow> bool" where
  "tag_found tid det \<longleftrightarrow> suffix (tag_string tid) (fst det)"

definition det_inv :: "detector_apriltag \<Rightarrow> bool" where
  "det_inv d \<longleftrightarrow>
     (state d = no_object \<longrightarrow> image_points d = []) \<and>
     (state d \<noteq> no_object \<longrightarrow> length (image_points d) = 4)"

text \<open>
  The detectors a program can hold: created by the constructor, then updated by any
  sequence of \<open>detect\<close> calls on well-formed frames that return without an error.
\<close>

inductive det_reachable :: "pose_lib \<Rightarrow> detector_apriltag \<Rightarrow> bool" for L where
  created: "det_reachable L (new_detector cam tid sz)"
| detected: "det_reachable L d \<Longrightarrow> frame_wf sh \<Longrightarrow> detect L sh d = Inr (b, d')
             \<Longrightarrow> det_reachable L d'"

text \<open>The correspondences lines 100-112 build when the detector has four corners.\<close>

definition corner_points :: "detector_apriltag \<Rightarrow> vp_point list" where
  "corner_points d =
     map2 (\<lambda>pt ip. case convertPointWithoutDistortion (cam_parameters d) ip of
                    (x, y) \<Rightarrow> pt\<lparr>img_x := x, img_y := y\<rparr>)
       (compute3DPoints (tag_size_meters d)) (image_points d)"

text \<open>
  A concrete configuration for the witnesses: a 640x480 camera, a pose library whose
  RGB-D solver fails and whose refinement keeps its seed, and a frame holding tag 3.
\<close>

definition example_cam :: cam_params where
  "example_cam = \<lparr>px = 600, py = 600, u0 = 320, v0 = 240\<rparr>"

definition example_lib :: pose_lib where
  "example_lib = \<lparr>computePoseRGBD = (\<lambda>_ _ _ _. None), computePoseVVS = (\<lambda>_ M. M)\<rparr>"

definition example_polygon :: "image_point list" where
  "example_polygon =
     [\<lparr>ip_i = 210, ip_j = 290\<rparr>, \<lparr>ip_i = 210, ip_j = 350\<rparr>,
      \<lparr>ip_i = 270, ip_j = 350\<rparr>, \<lparr>ip_i = 270, ip_j = 290\<rparr>]"

definition example_frame :: apriltag_shared where
  "example_frame = \<lparr>detections = [(''36h11 id: 5'', example_polygon), (''36h11 id: 3'', example_polygon)],
                    depth = []\<rparr>"

section \<open>Lemmas on the pose computation\<close>

lemma image_plane_points_ok:
  assumes "length points \<le> length ips"
  shows "image_plane_points cam ips points =
           Inr (map2 (\<lambda>pt ip. case convertPointWithoutDistortion cam ip of
                                  (x, y) \<Rightarrow> pt\<lparr>img_x := x, img_y := y\<rparr>) points ips)"
  using assms by (simp add: image_plane_points_def)

lemma computePose_no_object [detector_simps]:
  "state d = no_object \<Longrightarrow> computePose L sh d = Inr (False, d)"
  by (simp add: computePose_def)

lemma computePose_newly [detector_simps]:
  assumes "state d = newly_acquired_object" and "4 \<le> length (image_points d)"
  shows "computePose L sh d =
           Inr (True, d\<lparr>cMo := (case computePoseRGBD L (depth sh) (image_points d)
                                     (cam_parameters d) (tag_size_meters d) of
                                None \<Rightarrow> cMo d | Some M \<Rightarrow> M)\<rparr>)"
  using assms by (simp add: computePose_def image_plane_points_ok)

lemma computePose_already [detector_simps]:
  assumes "state d = already_acquired_object" and "4 \<le> length (image_points d)"
  shows "computePose L sh d =
           Inr (True, d\<lparr>cMo := computePoseVVS L (corner_points d) (cMo d),
                       error := computeResidual (corner_points d)
                                  (computePoseVVS L (corner_points d) (cMo d))\<rparr>)"
  using assms by (simp add: computePose_def image_plane_points_ok corner_points_def Let_def)

lemma computePose_short:
  assumes "state d \<noteq> no_object" and "length (image_points d) < 4"
  shows "computePose L sh d = Inl Undefined_behaviour"
  using assms by (simp add: computePose_def image_plane_points_def)

lemma computePose_posed:
  assumes "state d \<noteq> no_object" and "4 \<le> length (image_points d)"
  obtains d' where "computePose L sh d = Inr (True, d')" and "state d' = state d"
    and "image_points d' = image_points d" and "tag_id d' = tag_id d"
    and "tag_size_meters d' = tag_size_meters d" and "cam_parameters d' = cam_parameters d"
  using assms by (cases "state d") (auto simp: computePose_newly computePose_already)

section \<open>Lemmas on the detection loop\<close>

lemma acquisition_step_found [simp]:
  "acquisition_step s True True \<noteq> no_object"
  "acquisition_step s False posed = no_object"
  "acquisition_step s found False = no_object"
  by (simp_all add: acquisition_step_def)

lemma detect_loop_find:
  assumes "list_all (\<lambda>(msg, polygon). length msg < 2 ^ 64 \<and> length polygon = 4) dets"
  shows "detect_loop L sh d dets =
           (case find (tag_found (tag_id d)) dets of
              None \<Rightarrow> Inr (False, d\<lparr>state := no_object\<rparr>)
            | Some (msg, polygon) \<Rightarrow>
                computePose L sh (d\<lparr>image_points := polygon,
                                    state := acquisition_step (state d) True True\<rparr>))"
  using assms
proof (induction dets)
  case Nil
  then show ?case by simp
next
  case (Cons det rest)
  obtain msg polygon where det: "det = (msg, polygon)" by fastforce
  have lens: "length msg < 2 ^ 64" "length polygon = 4"
    using Cons.prems det by simp_all
  let ?d1 = "d\<lparr>image_points := polygon, state := acquisition_step (state d) True True\<rparr>"
  show ?case
  proof (cases "tag_found (tag_id d) det")
    case True
    have "d\<lparr>image_points := polygon,
             state := (if state d = no_object then newly_acquired_object
                       else already_acquired_object)\<rparr> = ?d1"
      by (simp add: acquisition_step_def)
    moreover obtain d2 where "computePose L sh ?d1 = Inr (True, d2)"
      using computePose_posed [of ?d1 L sh] lens by auto
    ultimately show ?thesis
      using True lens det by (simp add: tag_matches_eq tag_found_def Let_def)
  next
    case False
    then show ?thesis
      using Cons lens det by (simp add: tag_matches_eq tag_found_def)
  qed
qed

lemma detect_find:
  assumes "frame_wf sh"
  shows "detect L sh d =
           (case find (tag_found (tag_id d)) (detections sh) of
              None \<Rightarrow> Inr (False, d\<lparr>image_points := [], state := no_object\<rparr>)
            | Some (msg, polygon) \<Rightarrow>
                computePose L sh (d\<lparr>image_points := polygon,
                                    state := acquisition_step (state d) True True\<rparr>))"
  using assms detect_loop_find [of "detections sh" L sh "d\<lparr>image_points := []\<rparr>"]
  by (simp add: detect_def frame_wf_def split: option.splits)

lemma find_Some_wf:
  assumes "frame_wf sh" and "find P (detections sh) = Some (msg, polygon)"
  shows "length polygon = 4" and "P (msg, polygon)"
proof -
  have "(msg, polygon) \<in> set (detections sh)" and "P (msg, polygon)"
    using assms(2) by (auto simp: find_Some_iff nth_mem)
  then show "length polygon = 4" and "P (msg, polygon)"
    using assms(1) by (auto simp: frame_wf_def list_all_iff)
qed

lemma computePose_result:
  assumes "computePose L sh d = Inr (ok, d')"
  shows "ok = (state d \<noteq> no_object)" and "state d' = state d"
    and "image_points d' = image_points d" and "tag_id d' = tag_id d"
    and "tag_size_meters d' = tag_size_meters d" and "cam_parameters d' = cam_parameters d"
  using assms
  by (auto simp: computePose_def image_plane_points_def Let_def split: if_splits)

text \<open>The same equation when only the messages are known to fit \<open>size_t\<close>.\<close>

lemma detect_loop_find_msgs:
  assumes "list_all (\<lambda>(msg, polygon). length msg < 2 ^ 64) dets"
  shows "detect_loop L sh d dets =
           (case find (tag_found (tag_id d)) dets of
              None \<Rightarrow> Inr (False, d\<lparr>state := no_object\<rparr>)
            | Some (msg, polygon) \<Rightarrow>
                computePose L sh (d\<lparr>image_points := polygon,
                                    state := acquisition_step (state d) True True\<rparr>))"
  using assms
proof (induction dets)
  case Nil
  then show ?case by simp
next
  case (Cons det rest)
  obtain msg polygon where det: "det = (msg, polygon)" by fastforce
  have len: "length msg < 2 ^ 64" using Cons.prems det by simp
  let ?d1 = "d\<lparr>image_points := polygon, state := acquisition_step (state d) True True\<rparr>"
  show ?case
  proof (cases "tag_found (tag_id d) det")
    case True
    have d1: "d\<lparr>image_points := polygon,
             state := (if state d = no_object then newly_acquired_object
                       else already_acquired_object)\<rparr> = ?d1"
      by (simp add: acquisition_step_def)
    show ?thesis
    proof (cases "computePose L sh ?d1")
      case (Inl e)
      then show ?thesis using True len det d1 by (simp add: tag_matches_eq tag_found_def Let_def)
    next
      case (Inr r)
      obtain ok d2 where r: "r = (ok, d2)" by fastforce
      then have "ok" using computePose_result(1) [of L sh ?d1 ok d2] Inr by simp
      then show ?thesis
        using True len det d1 Inr r by (simp add: tag_matches_eq tag_found_def Let_def)
    qed
  next
    case False
    then show ?thesis
      using Cons len det by (simp add: tag_matches_eq tag_found_def)
  qed
qed

lemma detect_loop_Cons_cases:
  "tag_matches (tag_id d) msg = Inl e \<Longrightarrow>
     detect_loop L sh d ((msg, polygon) # rest) = Inl e"
  "tag_matches (tag_id d) msg = Inr False \<Longrightarrow>
     detect_loop L sh d ((msg, polygon) # rest) = detect_loop L sh d rest"
  "tag_matches (tag_id d) msg = Inr True \<Longrightarrow>
     detect_loop L sh d ((msg, polygon) # rest) =
       then_ok (computePose L sh (d\<lparr>image_points := polygon,
                                   state := acquisition_step (state d) True True\<rparr>))
         (\<lambda>(ok, d2). if ok then Inr (True, d2) else Inr (False, d2\<lparr>state := no_object\<rparr>))"
  by (simp_all add: acquisition_step_def Let_def)

text \<open>
  Once a message is accepted the loop returns the outcome of \<open>computePose\<close> for the
  updated detector, and that outcome is never \<open>false\<close>: the reset of lines 53-55 is dead.
\<close>

lemma detect_loop_found_result:
  assumes "tag_matches (tag_id d) msg = Inr True"
    and "detect_loop L sh d ((msg, polygon) # rest) = Inr (b, d')"
  shows "b \<and> computePose L sh (d\<lparr>image_points := polygon,
                                  state := acquisition_step (state d) True True\<rparr>) = Inr (True, d')"
proof -
  let ?d1 = "d\<lparr>image_points := polygon, state := acquisition_step (state d) True True\<rparr>"
  let ?F = "\<lambda>(ok, d2). if ok then Inr (True, d2)
                       else (Inr (False, d2\<lparr>state := no_object\<rparr>) :: cpp_error + _)"
  have "then_ok (computePose L sh ?d1) ?F = Inr (b, d')"
    using assms(2) unfolding detect_loop_Cons_cases(3) [OF assms(1)] .
  then obtain v where v: "computePose L sh ?d1 = Inr v" and fv: "?F v = Inr (b, d')"
    by (auto simp: then_ok_Inr_iff)
  obtain ok d2 where "v = (ok, d2)" by fastforce
  with v fv have cp: "computePose L sh ?d1 = Inr (ok, d2)"
    and res: "(if ok then Inr (True, d2) else Inr (False, d2\<lparr>state := no_object\<rparr>))
                = (Inr (b, d') :: cpp_error + bool \<times> detector_apriltag)"
    by simp_all
  have "ok" using computePose_result(1) [OF cp] by simp
  then show ?thesis using cp res by simp
qed

lemma detect_loop_False:
  assumes "detect_loop L sh d dets = Inr (False, d')"
  shows "d' = d\<lparr>state := no_object\<rparr>"
  using assms
proof (induction dets)
  case Nil
  then show ?case by simp
next
  case (Cons det rest)
  obtain msg polygon where det: "det = (msg, polygon)" by fastforce
  show ?case
  proof (cases "tag_matches (tag_id d) msg")
    case (Inl e)
    then show ?thesis using Cons.prems det detect_loop_Cons_cases(1) by simp
  next
    case (Inr found)
    show ?thesis
    proof (cases found)
      case True
      then show ?thesis
        using detect_loop_found_result [of d msg L sh polygon rest False d'] Cons.prems det Inr
        by simp
    next
      case False
      then show ?thesis using Cons det Inr detect_loop_Cons_cases(2) by simp
    qed
  qed
qed

lemma detect_loop_True:
  assumes "detect_loop L sh d dets = Inr (True, d')"
  shows "state d' = acquisition_step (state d) True True \<and> tag_id d' = tag_id d \<and>
         tag_size_meters d' = tag_size_meters d \<and> cam_parameters d' = cam_parameters d"
  using assms
proof (induction dets)
  case Nil
  then show ?case by simp
next
  case (Cons det rest)
  obtain msg polygon where det: "det = (msg, polygon)" by fastforce
  show ?case
  proof (cases "tag_matches (tag_id d) msg")
    case (Inl e)
    then show ?thesis using Cons.prems det detect_loop_Cons_cases(1) by simp
  next
    case (Inr found)
    show ?thesis
    proof (cases found)
      case True
      then have "computePose L sh (d\<lparr>image_points := polygon,
                   state := acquisition_step (state d) True True\<rparr>) = Inr (True, d')"
        using detect_loop_found_result [of d msg L sh polygon rest True d'] Cons.prems det Inr
        by simp
      then show ?thesis
        using computePose_result(2-6) by fastforce
    next
      case False
      then show ?thesis using Cons det Inr detect_loop_Cons_cases(2) by simp
    qed
  qed
qed

inductive_cases det_reachable_cases: "det_reachable L d"

lemma detect_True_wf:
  assumes "frame_wf sh" and "detect L sh d = Inr (True, d')"
  obtains msg where "find (tag_found (tag_id d)) (detections sh) = Some (msg, image_points d')"
    and "length (image_points d') = 4"
    and "state d' = acquisition_step (state d) True True"
proof (cases "find (tag_found (tag_id d)) (detections sh)")
  case None
  then show ?thesis using assms detect_find [OF assms(1), of L d] by simp
next
  case (Some det)
  obtain msg polygon where det: "det = (msg, polygon)" by fastforce
  let ?d1 = "d\<lparr>image_points := polygon, state := acquisition_step (state d) True True\<rparr>"
  have len: "length polygon = 4"
    using find_Some_wf(1) [OF assms(1)] Some det by blast
  have "computePose L sh ?d1 = Inr (True, d')"
    using assms(2) detect_find [OF assms(1), of L d] Some det by simp
  then have "image_points d' = polygon" and "state d' = acquisition_step (state d) True True"
    using computePose_result(2,3) by fastforce+
  then show ?thesis using that Some det len by simp
qed

lemma detect_wf_outcome:
  assumes "frame_wf sh"
  shows "\<exists>d'. detect L sh d = Inr (list_ex (tag_found (tag_id d)) (detections sh), d') \<and>
              state d' = acquisition_step (state d)
                           (list_ex (tag_found (tag_id d)) (detections sh)) True"
proof (cases "find (tag_found (tag_id d)) (detections sh)")
  case None
  then have "\<not> list_ex (tag_found (tag_id d)) (detections sh)"
    by (auto simp: find_None_iff list_ex_iff)
  with None show ?thesis
    by (simp add: detect_find [OF assms])
next
  case (Some det)
  obtain msg polygon where det: "det = (msg, polygon)" by fastforce
  let ?d1 = "d\<lparr>image_points := polygon, state := acquisition_step (state d) True True\<rparr>"
  have "length polygon = 4" and "tag_found (tag_id d) (msg, polygon)"
    using find_Some_wf [OF assms] Some det by blast+
  moreover have "(msg, polygon) \<in> set (detections sh)"
    using Some det by (auto simp: find_Some_iff nth_mem)
  ultimately have ex: "list_ex (tag_found (tag_id d)) (detections sh)"
    by (auto simp: list_ex_iff)
  obtain d2 where "computePose L sh ?d1 = Inr (True, d2)" and "state d2 = state ?d1"
    using computePose_posed [of ?d1 L sh] \<open>length polygon = 4\<close> by auto
  then show ?thesis
    using Some det ex by (simp add: detect_find [OF assms])
qed

lemma detect_frame:
  assumes "detect L sh d = Inr (b, d')"
  shows "tag_id d' = tag_id d \<and> tag_size_meters d' = tag_size_meters d \<and>
         cam_parameters d' = cam_parameters d"
proof (cases b)
  case True
  then show ?thesis
    using detect_loop_True [of L sh "d\<lparr>image_points := []\<rparr>" "detections sh" d'] assms
    by (simp add: detect_def)
next
  case False
  then show ?thesis
    using detect_loop_False [of L sh "d\<lparr>image_points := []\<rparr>" "detections sh" d'] assms
    by (simp add: detect_def)
qed

lemma detect_ok_state:
  assumes "detect L sh d = Inr (b, d')"
  shows "(state d' = no_object) = (\<not> b)"
proof (cases b)
  case True
  then show ?thesis
    using detect_loop_True [of L sh "d\<lparr>image_points := []\<rparr>" "detections sh" d'] assms
    by (simp add: detect_def)
next
  case False
  then show ?thesis
    using detect_loop_False [of L sh "d\<lparr>image_points := []\<rparr>" "detections sh" d'] assms
    by (simp add: detect_def)
qed

lemmas example_eval = example_cam_def example_lib_def example_polygon_def example_frame_def
  frame_wf_def new_detector_def tag_found_def tag_text_eval

lemma example_frame_wf: "frame_wf example_frame"
  by (simp add: example_eval)

lemma example_detect_first:
  "detect example_lib example_frame (new_detector example_cam 3 (1 / 10)) =
     Inr (True, (new_detector example_cam 3 (1 / 10))\<lparr>image_points := example_polygon,
                                                      state := newly_acquired_object\<rparr>)"
proof -
  have "find (tag_found 3) (detections example_frame) = Some (''36h11 id: 3'', example_polygon)"
    by (simp add: example_eval)
  then show ?thesis
    by (simp add: detect_find [OF example_frame_wf] computePose_newly acquisition_step_def
        new_detector_def example_polygon_def example_lib_def)
qed

section \<open>Properties of \<open>detect\<close>\<close>

text \<open>
  C1 (refinement): on a well-formed frame, \<open>detect\<close> never throws and never reads out
  of range, it reports success exactly when some message carries the detector's
  identifier, and the new state is the one the abstract acquisition machine of the spec
  prescribes with the pose computation always succeeding.
\<close>

theorem detect_refines_acquisition:
  assumes "frame_wf sh"
  shows "\<exists>d'. detect L sh d = Inr (list_ex (tag_found (tag_id d)) (detections sh), d') \<and>
              state d' = acquisition_step (state d)
                           (list_ex (tag_found (tag_id d)) (detections sh)) True"
  using assms by (rule detect_wf_outcome)

theorem detect_refines_acquisition_witness:
  "frame_wf example_frame \<and>
   (\<exists>d'. detect example_lib example_frame (new_detector example_cam 3 (1 / 10)) =
          Inr (list_ex (tag_found 3) (detections example_frame), d') \<and>
        state d' = acquisition_step no_object (list_ex (tag_found 3) (detections example_frame)) True)"
proof -
  have wf: "frame_wf example_frame" by (simp add: example_eval)
  show ?thesis
    using wf detect_refines_acquisition [OF wf, of example_lib "new_detector example_cam 3 (1 / 10)"]
    by (simp add: new_detector_def)
qed

text \<open>
  C2 (invariant): whatever the frame, a \<open>detect\<close> call that returns \<open>false\<close> leaves
  the detector with no object and no corners and keeps its last pose and residual:
  a tag that was seen but could not be posed is never left half-acquired.
\<close>

theorem detect_failure_resets:
  assumes "detect L sh d = Inr (False, d')"
  shows "d' = d\<lparr>image_points := [], state := no_object\<rparr>"
  using detect_loop_False [of L sh "d\<lparr>image_points := []\<rparr>" "detections sh" d'] assms
  by (simp add: detect_def)

theorem detect_failure_resets_witness:
  "detect example_lib (example_frame\<lparr>detections := []\<rparr>) (new_detector example_cam 3 (1 / 10))
     = Inr (False, new_detector example_cam 3 (1 / 10)\<lparr>image_points := [], state := no_object\<rparr>)"
proof -
  have "detect example_lib (example_frame\<lparr>detections := []\<rparr>) (new_detector example_cam 3 (1 / 10))
          = Inr (False, (new_detector example_cam 3 (1 / 10))\<lparr>image_points := [], state := no_object\<rparr>)"
    by (simp add: detect_def)
  then show ?thesis
    using detect_failure_resets by blast
qed

text \<open>
  C3 (invariant): the guarantee of the spec (section 4.2): after \<open>detect\<close> returns, the
  state is \<open>no_object\<close> exactly when the call reported failure.
\<close>

theorem detect_no_object_iff_failure:
  assumes "detect L sh d = Inr (b, d')"
  shows "(state d' = no_object) = (\<not> b)"
  using assms by (rule detect_ok_state)

theorem detect_no_object_iff_failure_witness:
  "detect example_lib example_frame (new_detector example_cam 3 (1 / 10)) =
     Inr (True, (new_detector example_cam 3 (1 / 10))\<lparr>image_points := example_polygon,
                                                      state := newly_acquired_object\<rparr>) \<and>
   (state ((new_detector example_cam 3 (1 / 10))\<lparr>image_points := example_polygon,
                                                 state := newly_acquired_object\<rparr>) = no_object)
     = (\<not> True)"
  using detect_no_object_iff_failure [OF example_detect_first] example_detect_first by simp

text \<open>
  C4 (functional): first acquisition. On a detector with no object, the first message
  carrying its identifier makes it \<open>newly_acquired_object\<close> with that message's corners,
  and the pose is the RGB-D solution; the residual is not touched. When the RGB-D solver
  fails (for instance without depth data) \<open>detect\<close> still reports success and the pose
  is the previous, stale one: the boolean result of \<open>vpPose::computePoseRGBD\<close>
  (lines 116-119) is ignored.
\<close>

theorem detect_first_acquisition:
  assumes "frame_wf sh" and "state d = no_object"
    and "find (tag_found (tag_id d)) (detections sh) = Some (msg, polygon)"
  shows "detect L sh d =
           Inr (True, d\<lparr>image_points := polygon, state := newly_acquired_object,
                       cMo := (case computePoseRGBD L (depth sh) polygon (cam_parameters d)
                                      (tag_size_meters d) of
                                 None \<Rightarrow> cMo d | Some M \<Rightarrow> M)\<rparr>)"
proof -
  have "length polygon = 4" using find_Some_wf(1) [OF assms(1,3)] .
  then show ?thesis
    using assms
    by (simp add: detect_find computePose_newly acquisition_step_def split: option.split)
qed

theorem detect_first_acquisition_witness:
  "frame_wf example_frame \<and> state (new_detector example_cam 3 (1 / 10)) = no_object \<and>
   find (tag_found (tag_id (new_detector example_cam 3 (1 / 10)))) (detections example_frame)
     = Some (''36h11 id: 3'', example_polygon) \<and>
   detect example_lib example_frame (new_detector example_cam 3 (1 / 10)) =
     Inr (True, (new_detector example_cam 3 (1 / 10))\<lparr>image_points := example_polygon,
                  state := newly_acquired_object, cMo := hm_identity\<rparr>)"
proof -
  have f: "find (tag_found (tag_id (new_detector example_cam 3 (1 / 10)))) (detections example_frame)
             = Some (''36h11 id: 3'', example_polygon)"
    by (simp add: example_eval)
  have s: "state (new_detector example_cam 3 (1 / 10)) = no_object"
    by (simp add: new_detector_def)
  show ?thesis
    using detect_first_acquisition [OF example_frame_wf s f, of example_lib] f s example_frame_wf
    by (simp add: example_lib_def new_detector_def)
qed

text \<open>
  C5 (functional): tracking. On a detector that already holds the tag, the next frame
  carrying its identifier makes it \<open>already_acquired_object\<close>, converts the four corners
  to metres, refines the pose by virtual visual servoing seeded with the previous pose
  (the warm start of the spec), and stores the reprojection residual of the refined pose.
\<close>

theorem detect_tracking_refinement:
  assumes "frame_wf sh" and "state d \<noteq> no_object"
    and "find (tag_found (tag_id d)) (detections sh) = Some (msg, polygon)"
  shows "let d1 = d\<lparr>image_points := polygon, state := already_acquired_object\<rparr>;
             M = computePoseVVS L (corner_points d1) (cMo d)
         in detect L sh d = Inr (True, d1\<lparr>cMo := M, error := computeResidual (corner_points d1) M\<rparr>)"
proof -
  have "length polygon = 4" using find_Some_wf(1) [OF assms(1,3)] .
  then show ?thesis
    using assms
    by (simp add: detect_find computePose_already acquisition_step_def corner_points_def Let_def)
qed

theorem detect_tracking_refinement_witness:
  "frame_wf example_frame \<and>
   state ((new_detector example_cam 3 (1 / 10))\<lparr>image_points := example_polygon,
                                                state := newly_acquired_object\<rparr>) \<noteq> no_object \<and>
   find (tag_found (tag_id ((new_detector example_cam 3 (1 / 10))\<lparr>image_points := example_polygon,
                                                state := newly_acquired_object\<rparr>)))
     (detections example_frame) = Some (''36h11 id: 3'', example_polygon) \<and>
   detect example_lib example_frame
     ((new_detector example_cam 3 (1 / 10))\<lparr>image_points := example_polygon,
                                             state := newly_acquired_object\<rparr>) =
   Inr (True, (new_detector example_cam 3 (1 / 10))\<lparr>image_points := example_polygon,
          state := already_acquired_object,
          error := computeResidual
                     (corner_points ((new_detector example_cam 3 (1 / 10))\<lparr>
                        image_points := example_polygon, state := already_acquired_object\<rparr>))
                     hm_identity\<rparr>)"
proof -
  let ?d = "(new_detector example_cam 3 (1 / 10))\<lparr>image_points := example_polygon,
                                                   state := newly_acquired_object\<rparr>"
  have f: "find (tag_found (tag_id ?d)) (detections example_frame)
             = Some (''36h11 id: 3'', example_polygon)"
    by (simp add: example_eval)
  have s: "state ?d \<noteq> no_object" by simp
  show ?thesis
    using detect_tracking_refinement [OF example_frame_wf s f, of example_lib] f s example_frame_wf
    by (simp add: example_lib_def new_detector_def Let_def)
qed

lemma det_inv_new: "det_inv (new_detector cam tid sz)"
  by (simp add: det_inv_def new_detector_def)

lemma det_inv_step:
  assumes "frame_wf sh" and "detect L sh d = Inr (b, d')"
  shows "det_inv d'"
proof (cases b)
  case True
  then have dt: "detect L sh d = Inr (True, d')" using assms(2) by simp
  obtain msg where "find (tag_found (tag_id d)) (detections sh) = Some (msg, image_points d')"
    and "length (image_points d') = 4"
    and "state d' = acquisition_step (state d) True True"
    by (rule detect_True_wf [OF assms(1) dt])
  then show ?thesis by (simp add: det_inv_def)
next
  case False
  then have "d' = d\<lparr>image_points := [], state := no_object\<rparr>"
    using detect_loop_False [of L sh "d\<lparr>image_points := []\<rparr>" "detections sh" d'] assms(2)
    by (simp add: detect_def)
  then show ?thesis by (simp add: det_inv_def)
qed

lemma det_inv_drawDebug:
  assumes "det_inv d"
  shows "\<exists>cmds. drawDebug d = Inr cmds \<and> (state d = no_object \<longrightarrow> cmds = [])"
  using assms by (auto simp: det_inv_def drawDebug_def Let_def)

lemma example_reachable:
  "det_reachable example_lib ((new_detector example_cam 3 (1 / 10))\<lparr>image_points := example_polygon,
                                                             state := newly_acquired_object\<rparr>)"
  by (rule det_reachable.detected [OF det_reachable.created example_frame_wf example_detect_first])

text \<open>
  C7 (invariant): in every detector reachable from the constructor through
  \<open>detect\<close> calls on well-formed frames, no object means no corners, and an acquired
  object has exactly the four corners its pose was computed from.
\<close>

theorem det_reachable_inv:
  assumes "det_reachable L d"
  shows "det_inv d"
  using assms
proof (induction rule: det_reachable.induct)
  case (created cam tid sz)
  then show ?case by (rule det_inv_new)
next
  case (detected d sh b d')
  then show ?case by (blast intro: det_inv_step)
qed

theorem det_reachable_inv_witness:
  "det_reachable example_lib ((new_detector example_cam 3 (1 / 10))\<lparr>image_points := example_polygon,
                                                             state := newly_acquired_object\<rparr>) \<and>
   length (image_points ((new_detector example_cam 3 (1 / 10))\<lparr>image_points := example_polygon,
                                                state := newly_acquired_object\<rparr>)) = 4"
  using example_reachable det_reachable_inv [OF example_reachable] by (simp add: det_inv_def)

text \<open>
  C20 (safety): the debug overlay of a reachable detector never reads past the end of
  \<open>_image_points\<close> (line 71 indexes corners 0 to 3), and draws nothing when no object is held.
\<close>

theorem det_reachable_drawDebug:
  assumes "det_reachable L d"
  shows "\<exists>cmds. drawDebug d = Inr cmds \<and> (state d = no_object \<longrightarrow> cmds = [])"
proof -
  have "det_inv d"
    using assms by (induction rule: det_reachable.induct) (blast intro: det_inv_new det_inv_step)+
  then show ?thesis by (rule det_inv_drawDebug)
qed

theorem det_reachable_drawDebug_witness:
  "det_reachable example_lib ((new_detector example_cam 3 (1 / 10))\<lparr>image_points := example_polygon,
                                                             state := newly_acquired_object\<rparr>) \<and>
   (\<exists>cmds. drawDebug ((new_detector example_cam 3 (1 / 10))\<lparr>image_points := example_polygon,
                                                state := newly_acquired_object\<rparr>) = Inr cmds)"
  using example_reachable det_reachable_drawDebug [OF example_reachable] by blast

text \<open>
  C21 (functional): the overlay of an acquired tag is the closed quadrilateral of its four
  corners, edge \<open>i\<close> from corner \<open>i\<close> to corner \<open>i + 1\<close> and the last edge back to
  corner 0, in red, green, blue and cyan with thickness 3, followed by the pose frame
  drawn at twice the tag size.
\<close>

theorem drawDebug_closed_polygon:
  assumes "state d \<noteq> no_object" and "image_points d = [p0, p1, p2, p3]"
  shows "drawDebug d =
           Inr [DisplayLine p0 p1 red 3, DisplayLine p1 p2 green 3, DisplayLine p2 p3 blue 3,
                DisplayLine p3 p0 cyan 3,
                DisplayFrame (cMo d) (cam_parameters d) (tag_size_meters d * 2) vp_none]"
  using assms by (simp add: drawDebug_def upt_rec)

theorem drawDebug_closed_polygon_witness:
  "state ((new_detector example_cam 3 (1 / 10))\<lparr>image_points := example_polygon,
                                                state := newly_acquired_object\<rparr>) \<noteq> no_object \<and>
   image_points ((new_detector example_cam 3 (1 / 10))\<lparr>image_points := example_polygon,
                                                state := newly_acquired_object\<rparr>) =
     [\<lparr>ip_i = 210, ip_j = 290\<rparr>, \<lparr>ip_i = 210, ip_j = 350\<rparr>,
      \<lparr>ip_i = 270, ip_j = 350\<rparr>, \<lparr>ip_i = 270, ip_j = 290\<rparr>] \<and>
   drawDebug ((new_detector example_cam 3 (1 / 10))\<lparr>image_points := example_polygon,
                                                state := newly_acquired_object\<rparr>) =
     Inr [DisplayLine \<lparr>ip_i = 210, ip_j = 290\<rparr> \<lparr>ip_i = 210, ip_j = 350\<rparr> red 3,
          DisplayLine \<lparr>ip_i = 210, ip_j = 350\<rparr> \<lparr>ip_i = 270, ip_j = 350\<rparr> green 3,
          DisplayLine \<lparr>ip_i = 270, ip_j = 350\<rparr> \<lparr>ip_i = 270, ip_j = 290\<rparr> blue 3,
          DisplayLine \<lparr>ip_i = 270, ip_j = 290\<rparr> \<lparr>ip_i = 210, ip_j = 290\<rparr> cyan 3,
          DisplayFrame hm_identity example_cam (1 / 10 * 2) vp_none]"
proof -
  let ?d = "(new_detector example_cam 3 (1 / 10))\<lparr>image_points := example_polygon,
                                                   state := newly_acquired_object\<rparr>"
  have s: "state ?d \<noteq> no_object" by simp
  have p: "image_points ?d =
             [\<lparr>ip_i = 210, ip_j = 290\<rparr>, \<lparr>ip_i = 210, ip_j = 350\<rparr>,
              \<lparr>ip_i = 270, ip_j = 350\<rparr>, \<lparr>ip_i = 270, ip_j = 290\<rparr>]"
    by (simp add: example_polygon_def)
  show ?thesis
    using drawDebug_closed_polygon [OF s p] s p by (simp add: new_detector_def)
qed

text \<open>
  C18 (error): lines 104-106 read \<open>_image_points[i]\<close> for the four reference corners
  without checking how many corners the engine reported. When the first message that
  matches the detector's identifier comes with a polygon of fewer than four corners,
  \<open>detect\<close> reads past the end of the vector: undefined behaviour, whatever the
  detector's state.
\<close>

theorem detect_short_polygon_ub:
  assumes "list_all (\<lambda>(msg, polygon). length msg < 2 ^ 64) (detections sh)"
    and "find (tag_found (tag_id d)) (detections sh) = Some (msg, polygon)"
    and "length polygon < 4"
  shows "detect L sh d = Inl Undefined_behaviour"
proof -
  let ?d1 = "d\<lparr>image_points := polygon, state := acquisition_step (state d) True True\<rparr>"
  have "detect L sh d = computePose L sh ?d1"
    using detect_loop_find_msgs [OF assms(1), of L sh "d\<lparr>image_points := []\<rparr>"] assms(2)
    by (simp add: detect_def)
  moreover have "computePose L sh ?d1 = Inl Undefined_behaviour"
    using assms(3) by (intro computePose_short) simp_all
  ultimately show ?thesis by simp
qed

theorem detect_short_polygon_ub_witness:
  "list_all (\<lambda>(msg, polygon). length msg < 2 ^ 64)
     (detections (example_frame\<lparr>detections := [(''36h11 id: 3'', take 3 example_polygon)]\<rparr>)) \<and>
   find (tag_found (tag_id (new_detector example_cam 3 (1 / 10))))
     (detections (example_frame\<lparr>detections := [(''36h11 id: 3'', take 3 example_polygon)]\<rparr>))
     = Some (''36h11 id: 3'', take 3 example_polygon) \<and>
   length (take 3 example_polygon) < 4 \<and>
   detect example_lib (example_frame\<lparr>detections := [(''36h11 id: 3'', take 3 example_polygon)]\<rparr>)
     (new_detector example_cam 3 (1 / 10)) = Inl Undefined_behaviour"
proof -
  let ?sh = "example_frame\<lparr>detections := [(''36h11 id: 3'', take 3 example_polygon)]\<rparr>"
  let ?d = "new_detector example_cam 3 (1 / 10)"
  have h1: "list_all (\<lambda>(msg, polygon). length msg < 2 ^ 64) (detections ?sh)" by simp
  have h2: "find (tag_found (tag_id ?d)) (detections ?sh) = Some (''36h11 id: 3'', take 3 example_polygon)"
    by (simp add: example_eval)
  have h3: "length (take 3 example_polygon) < 4" by (simp add: example_polygon_def)
  show ?thesis using detect_short_polygon_ub [OF h1 h2 h3] h1 h2 h3 by blast
qed

text \<open>
  C10 (functional): the first accepted message wins (spec, section 4.2, step 1). When the
  frame's detections are some messages that do not carry the identifier, then one that
  does, then any others, \<open>detect\<close> succeeds with the corners of that first matching
  message, whatever the later ones hold.
\<close>

theorem detect_first_match_wins:
  assumes "frame_wf sh" and "detections sh = pre @ (msg, polygon) # post"
    and "\<not> list_ex (tag_found (tag_id d)) pre" and "tag_found (tag_id d) (msg, polygon)"
  shows "\<exists>d'. detect L sh d = Inr (True, d') \<and> image_points d' = polygon"
proof -
  have "find (tag_found (tag_id d)) pre = None"
    using assms(3) by (simp add: find_None_iff list_ex_iff)
  then have fd: "find (tag_found (tag_id d)) (detections sh) = Some (msg, polygon)"
    using assms(2,4) by (simp add: find_first_match)
  let ?d1 = "d\<lparr>image_points := polygon, state := acquisition_step (state d) True True\<rparr>"
  have "length polygon = 4" using find_Some_wf [OF assms(1) fd] by simp
  then obtain d2 where "computePose L sh ?d1 = Inr (True, d2)" and "image_points d2 = polygon"
    using computePose_posed [of ?d1 L sh] by auto
  then show ?thesis using fd by (simp add: detect_find [OF assms(1)])
qed

theorem detect_first_match_wins_witness:
  "frame_wf (example_frame\<lparr>detections := [(''36h11 id: 5'', example_polygon),
      (''36h11 id: 3'', example_polygon), (''36h11 id: 3'', rev example_polygon)]\<rparr>) \<and>
   detections (example_frame\<lparr>detections := [(''36h11 id: 5'', example_polygon),
      (''36h11 id: 3'', example_polygon), (''36h11 id: 3'', rev example_polygon)]\<rparr>) =
     [(''36h11 id: 5'', example_polygon)] @ (''36h11 id: 3'', example_polygon) #
       [(''36h11 id: 3'', rev example_polygon)] \<and>
   \<not> list_ex (tag_found (tag_id (new_detector example_cam 3 (1 / 10))))
       [(''36h11 id: 5'', example_polygon)] \<and>
   tag_found (tag_id (new_detector example_cam 3 (1 / 10))) (''36h11 id: 3'', example_polygon) \<and>
   (\<exists>d'. detect example_lib (example_frame\<lparr>detections := [(''36h11 id: 5'', example_polygon),
      (''36h11 id: 3'', example_polygon), (''36h11 id: 3'', rev example_polygon)]\<rparr>)
      (new_detector example_cam 3 (1 / 10)) = Inr (True, d') \<and> image_points d' = example_polygon)"
proof -
  let ?sh = "example_frame\<lparr>detections := [(''36h11 id: 5'', example_polygon),
      (''36h11 id: 3'', example_polygon), (''36h11 id: 3'', rev example_polygon)]\<rparr>"
  let ?d = "new_detector example_cam 3 (1 / 10)"
  have h1: "frame_wf ?sh" by (simp add: example_eval)
  have h2: "detections ?sh = [(''36h11 id: 5'', example_polygon)] @ (''36h11 id: 3'', example_polygon) #
       [(''36h11 id: 3'', rev example_polygon)]" by simp
  have h3: "\<not> list_ex (tag_found (tag_id ?d)) [(''36h11 id: 5'', example_polygon)]"
    by (simp add: example_eval)
  have h4: "tag_found (tag_id ?d) (''36h11 id: 3'', example_polygon)" by (simp add: example_eval)
  show ?thesis using detect_first_match_wins [OF h1 h2 h3 h4] h1 h2 h3 h4 by blast
qed

end
