(* ===== verification/Ordered_Map.thy ===== *)
theory Ordered_Map
  imports Prelude
begin

text \<open>
  The container of the session manager: \<open>std::map<int, V>\<close>
  (src/include/agimus_vision/tracker_object/node.hpp, line 65) as a list of key/value pairs
  with strictly increasing keys, so that iteration runs in key order, and its
  \<open>emplace\<close>, which inserts at the key's place unless the key is present and then keeps
  the existing value. The lemmas give the keys, the lookup and the order after an
  \<open>emplace\<close>.
\<close>

type_synonym 'v int_map = "(int \<times> 'v) list"

text \<open>\<open>std::map::emplace\<close>: insert at the key's place unless the key is present.\<close>

fun map_emplace :: "int \<Rightarrow> 'v \<Rightarrow> 'v int_map \<Rightarrow> 'v int_map" where
  "map_emplace k v [] = [(k, v)]"
| "map_emplace k v ((k', v') # m) =
     (if k < k' then (k, v) # (k', v') # m
      else if k = k' then (k', v') # m
      else (k', v') # map_emplace k v m)"

definition map_keys_ok :: "'v int_map \<Rightarrow> bool" where
  "map_keys_ok m \<longleftrightarrow> sorted_wrt (<) (map fst m)"

section \<open>Lemmas\<close>

lemma keys_map_emplace: "set (map fst (map_emplace k v m)) = insert k (set (map fst m))"
  by (induction k v m rule: map_emplace.induct) auto

lemma map_emplace_mem:
  "(a, b) \<in> set (map_emplace k v m) \<Longrightarrow> a = k \<or> (\<exists>b'. (a, b') \<in> set m)"
  by (induction k v m rule: map_emplace.induct) (auto split: if_splits)

lemma map_emplace_sorted:
  "sorted_wrt (<) (map fst m) \<Longrightarrow> sorted_wrt (<) (map fst (map_emplace k v m))"
  by (induction k v m rule: map_emplace.induct) (force dest: map_emplace_mem)+

lemma map_emplace_list_all:
  "list_all P m \<Longrightarrow> P (k, v) \<Longrightarrow> list_all P (map_emplace k v m)"
  by (induction k v m rule: map_emplace.induct) auto

lemma map_of_map_emplace:
  "k \<notin> set (map fst m) \<Longrightarrow> map_of (map_emplace k v m) = (map_of m)(k \<mapsto> v)"
  by (induction k v m rule: map_emplace.induct) (auto simp: fun_eq_iff)

end
