(* ===== verification/Tracking_Node.thy ===== *)
theory Tracking_Node
  imports Detector Ordered_Map
begin

text \<open>
  The tracking session manager, class \<open>Node\<close> of
  src/include/agimus_vision/tracker_object/node.hpp. Only the declaration is in the
  repository, so its state is taken from the header (lines 35-84) and its operations from
  the spec (sections 2, 4.1, 5 and 6): camera parameters, the last image with its depth map
  and time stamp, the flag \<open>_image_new\<close>, the detectors in a \<open>std::map\<close> from tag
  identifier to (detector, parent frame name, node name), and the two publication flags.
  A \<open>std::map<int, _>\<close> is a list of key/value pairs with strictly increasing keys, so
  that iteration runs in key order. Events are delivered one at a time, as the mutexes
  \<open>_image_lock\<close> and \<open>_cam_param_lock\<close> serialise them; one spin step processes
  the pending frame as a whole: the recognition engine runs once, then every detector, in
  key order, runs \<open>detect\<close> on the shared result with the node's current camera
  parameters, and each success publishes the pose.
\<close>

section \<open>State, events and publications\<close>

type_synonym entry = "detector_apriltag \<times> string \<times> string"

record 'img node =
  node_cam :: cam_params
  image_stamp :: nat
  gray_image :: 'img
  depth_image :: depth_map
  image_new :: bool
  detectors :: "entry int_map"
  shared :: apriltag_shared
  broadcast_tf :: bool
  broadcast_tf_postfix :: string
  broadcast_topic :: bool

datatype 'img event =
    CameraInfo cam_params
  | FrameArrived 'img depth_map nat
  | AddAprilTag cint real string string
  | SpinOnce

datatype pose_msg =
    PoseTF hmatrix string string nat
  | PoseTopic hmatrix string string nat

section \<open>Operations\<close>

definition cameraInfoCallback :: "cam_params \<Rightarrow> 'img node \<Rightarrow> 'img node" where
  "cameraInfoCallback cam n = n\<lparr>node_cam := cam\<rparr>"

definition frameCallback :: "'img \<Rightarrow> depth_map \<Rightarrow> nat \<Rightarrow> 'img node \<Rightarrow> 'img node" where
  "frameCallback img dm t n =
     n\<lparr>gray_image := img, depth_image := dm, image_stamp := t, image_new := True\<rparr>"

text \<open>
  \<open>addAprilTagService\<close>: a new detector, in state \<open>no_object\<close>, built with the current
  camera parameters; the boolean is the service's success flag, false when the identifier
  is already tracked (the existing detector is kept).
\<close>

definition addAprilTagService ::
  "cint \<Rightarrow> real \<Rightarrow> string \<Rightarrow> string \<Rightarrow> 'img node \<Rightarrow> bool \<times> 'img node" where
  "addAprilTagService tid sz parent name n =
     (if sint tid \<in> set (map fst (detectors n)) then (False, n)
      else (True, n\<lparr>detectors := map_emplace (sint tid)
                                   (new_detector (node_cam n) tid sz, parent, name) (detectors n)\<rparr>))"

text \<open>\<open>publish_pose_tf\<close> and \<open>publish_pose_topic\<close>, as selected by the two flags.\<close>

definition publish :: "'img node \<Rightarrow> hmatrix \<Rightarrow> string \<Rightarrow> string \<Rightarrow> pose_msg list" where
  "publish n M parent name =
     (if broadcast_tf n then [PoseTF M parent (name @ broadcast_tf_postfix n) (image_stamp n)] else [])
     @ (if broadcast_topic n then [PoseTopic M parent name (image_stamp n)] else [])"

text \<open>The loop over the detectors, in key order, for one frame.\<close>

fun process_detectors ::
  "pose_lib \<Rightarrow> apriltag_shared \<Rightarrow> 'img node \<Rightarrow> entry int_map
     \<Rightarrow> cpp_error + entry int_map \<times> pose_msg list" where
  "process_detectors L sh n [] = Inr ([], [])"
| "process_detectors L sh n ((k, (det, parent, name)) # rest) =
     then_ok (detect L sh (det\<lparr>cam_parameters := node_cam n\<rparr>)) (\<lambda>(ok, det').
       then_ok (process_detectors L sh n rest) (\<lambda>(rest', msgs).
         Inr ((k, (det', parent, name)) # rest',
              (if ok then publish n (cMo det') parent name else []) @ msgs)))"

text \<open>One pass of \<open>spin\<close>: process the pending frame, if any.\<close>

definition spinOnce ::
  "('img \<Rightarrow> detection list) \<Rightarrow> pose_lib \<Rightarrow> 'img node \<Rightarrow> cpp_error + 'img node \<times> pose_msg list" where
  "spinOnce engine L n =
     (if \<not> image_new n then Inr (n, [])
      else
        (let sh = snd (analyseImage engine (gray_image n) (depth_image n) (shared n))
         in then_ok (process_detectors L sh n (detectors n)) (\<lambda>(ds, msgs).
              Inr (n\<lparr>detectors := ds, shared := sh, image_new := False\<rparr>, msgs))))"

fun node_step ::
  "('img \<Rightarrow> detection list) \<Rightarrow> pose_lib \<Rightarrow> 'img event \<Rightarrow> 'img node
     \<Rightarrow> cpp_error + 'img node \<times> pose_msg list" where
  "node_step engine L (CameraInfo cam) n = Inr (cameraInfoCallback cam n, [])"
| "node_step engine L (FrameArrived img dm t) n = Inr (frameCallback img dm t n, [])"
| "node_step engine L (AddAprilTag tid sz parent name) n =
     Inr (snd (addAprilTagService tid sz parent name n), [])"
| "node_step engine L SpinOnce n = spinOnce engine L n"

section \<open>Specification\<close>

text \<open>
  The contract of the external recognition engine: for every image, each decoded message
  fits a \<open>std::string\<close> and each polygon has four corners.
\<close>

definition engine_wf :: "('img \<Rightarrow> detection list) \<Rightarrow> bool" where
  "engine_wf engine \<longleftrightarrow>
     (\<forall>img. list_all (\<lambda>(msg, polygon). length msg < 2 ^ 64 \<and> length polygon = 4) (engine img))"

definition node_inv :: "'img node \<Rightarrow> bool" where
  "node_inv n \<longleftrightarrow>
     map_keys_ok (detectors n) \<and>
     list_all (\<lambda>(k, (det, parent, name)). sint (tag_id det) = k \<and> det_inv det) (detectors n)"

definition node_init ::
  "'img \<Rightarrow> cam_params \<Rightarrow> bool \<Rightarrow> string \<Rightarrow> bool \<Rightarrow> 'img node" where
  "node_init img cam tf postfix topic =
     \<lparr>node_cam = cam, image_stamp = 0, gray_image = img, depth_image = [], image_new = False,
      detectors = [], shared = \<lparr>detections = [], depth = []\<rparr>,
      broadcast_tf = tf, broadcast_tf_postfix = postfix, broadcast_topic = topic\<rparr>"

inductive node_reachable ::
  "('img \<Rightarrow> detection list) \<Rightarrow> pose_lib \<Rightarrow> 'img node \<Rightarrow> bool" for engine L where
  init: "node_reachable engine L (node_init img cam tf postfix topic)"
| step: "node_reachable engine L n \<Longrightarrow> node_step engine L ev n = Inr (n', msgs)
         \<Longrightarrow> node_reachable engine L n'"

text \<open>What a detector publishes after a frame: its pose when it holds the tag.\<close>

definition published :: "'img node \<Rightarrow> int \<times> entry \<Rightarrow> pose_msg list" where
  "published n e =
     (case e of (k, (det, parent, name)) \<Rightarrow>
        if state det = no_object then [] else publish n (cMo det) parent name)"

text \<open>
  One entry of the map across a frame: same key and names, and the detector is the result
  of its own \<open>detect\<close> call on the shared frame with the node's camera parameters.
\<close>

definition entry_step ::
  "pose_lib \<Rightarrow> apriltag_shared \<Rightarrow> 'img node \<Rightarrow> int \<times> entry \<Rightarrow> int \<times> entry \<Rightarrow> bool" where
  "entry_step L sh n e e' =
     (case (e, e') of ((k, (d, p, nm)), (k', (d', p', nm'))) \<Rightarrow>
        k' = k \<and> p' = p \<and> nm' = nm \<and>
        (\<exists>ok. detect L sh (d\<lparr>cam_parameters := node_cam n\<rparr>) = Inr (ok, d')))"

text \<open>
  A concrete session for the witnesses: an engine that reports the detections of
  \<open>example_frame\<close> for every image, a node publishing to both sinks with tf postfix
  \<open>"_tag"\<close>, tracking tag 3 and holding a fresh frame stamped 7.
\<close>

definition example_engine :: "unit \<Rightarrow> detection list" where
  "example_engine img = detections example_frame"

definition example_node :: "unit node" where
  "example_node =
     (node_init () example_cam True ''_tag'' True)\<lparr>
        detectors := [(3, (new_detector example_cam 3 (1 / 10), ''camera'', ''tag3''))],
        image_new := True, image_stamp := 7\<rparr>"

section \<open>Lemmas on frame processing\<close>

lemma process_detectors_result:
  assumes "process_detectors L sh n m = Inr (ds, msgs)"
  shows "list_all2 (entry_step L sh n) m ds \<and> msgs = concat (map (published n) ds)"
  using assms
proof (induction m arbitrary: ds msgs)
  case Nil
  then show ?case by simp
next
  case (Cons e rest)
  obtain k det parent name where e: "e = (k, (det, parent, name))" by (cases e) auto
  obtain ok det' where dt: "detect L sh (det\<lparr>cam_parameters := node_cam n\<rparr>) = Inr (ok, det')"
    using Cons.prems e by (cases "detect L sh (det\<lparr>cam_parameters := node_cam n\<rparr>)") auto
  obtain rest' msgs' where pr: "process_detectors L sh n rest = Inr (rest', msgs')"
    using Cons.prems e dt by (cases "process_detectors L sh n rest") auto
  have ds: "ds = (k, (det', parent, name)) # rest'"
    and msgs: "msgs = (if ok then publish n (cMo det') parent name else []) @ msgs'"
    using Cons.prems e dt pr by simp_all
  have "(state det' = no_object) = (\<not> ok)" by (rule detect_ok_state [OF dt])
  then have "(if ok then publish n (cMo det') parent name else []) = published n (k, (det', parent, name))"
    by (simp add: published_def)
  then show ?case
    using Cons.IH [OF pr] ds msgs dt e by (auto simp: entry_step_def)
qed

lemma process_detectors_total:
  assumes "frame_wf sh"
  shows "\<exists>r. process_detectors L sh n m = Inr r"
proof (induction m)
  case Nil
  then show ?case by simp
next
  case (Cons e rest)
  obtain k det parent name where e: "e = (k, (det, parent, name))" by (cases e) auto
  obtain d' where "detect L sh (det\<lparr>cam_parameters := node_cam n\<rparr>) =
      Inr (list_ex (tag_found (tag_id det)) (detections sh), d')"
    using detect_wf_outcome [OF assms, of L "det\<lparr>cam_parameters := node_cam n\<rparr>"] by auto
  then show ?case using Cons e by auto
qed

lemma analyseImage_wf:
  "engine_wf engine \<Longrightarrow> frame_wf (snd (analyseImage engine img dm sh))"
  by (simp add: engine_wf_def frame_wf_def analyseImage_def Let_def)

lemma entry_step_keys: "list_all2 (entry_step L sh n) m ds \<Longrightarrow> map fst ds = map fst m"
  by (induction m ds rule: list_all2_induct) (auto simp: entry_step_def split: prod.splits)

lemma entry_step_inv:
  assumes "frame_wf sh" and "entry_step L sh n e e'"
    and "case e of (k, (det, parent, name)) \<Rightarrow> sint (tag_id det) = k"
  shows "case e' of (k, (det, parent, name)) \<Rightarrow> sint (tag_id det) = k \<and> det_inv det"
proof -
  obtain k d p nm k' d' p' nm' where e: "e = (k, (d, p, nm))" and e': "e' = (k', (d', p', nm'))"
    by (cases e, cases e') auto
  obtain ok where dt: "detect L sh (d\<lparr>cam_parameters := node_cam n\<rparr>) = Inr (ok, d')"
    and k: "k' = k" using assms(2) e e' by (auto simp: entry_step_def)
  have "tag_id d' = tag_id d" using detect_frame [OF dt] by simp
  moreover have "det_inv d'" using det_inv_step [OF assms(1) dt] .
  ultimately show ?thesis using assms(3) e e' k by simp
qed

lemma list_all2_entry_inv:
  assumes "frame_wf sh" and "list_all2 (entry_step L sh n) m ds"
    and "list_all (\<lambda>(k, (det, parent, name)). sint (tag_id det) = k) m"
  shows "list_all (\<lambda>(k, (det, parent, name)). sint (tag_id det) = k \<and> det_inv det) ds"
  using assms(2,3)
proof (induction m ds rule: list_all2_induct)
  case Nil
  then show ?case by simp
next
  case (Cons e m e' ds)
  have "case e' of (k, (det, parent, name)) \<Rightarrow> sint (tag_id det) = k \<and> det_inv det"
    using entry_step_inv [OF assms(1) Cons.hyps(1)] Cons.prems by (simp split: prod.splits)
  then show ?case using Cons by (simp split: prod.splits)
qed

lemma list_all_weaken_entry:
  "list_all (\<lambda>(k, (det, parent, name)). sint (tag_id det) = k \<and> det_inv det) m \<Longrightarrow>
   list_all (\<lambda>(k, (det, parent, name)). sint (tag_id det) = k) m"
  by (induction m) auto

lemma spinOnce_inv:
  assumes "engine_wf engine" and "node_inv n" and "spinOnce engine L n = Inr (n', msgs)"
  shows "node_inv n'"
proof (cases "image_new n")
  case False
  then show ?thesis using assms by (simp add: spinOnce_def)
next
  case True
  let ?sh = "snd (analyseImage engine (gray_image n) (depth_image n) (shared n))"
  have wf: "frame_wf ?sh" using analyseImage_wf [OF assms(1)] .
  obtain ds msgs' where pr: "process_detectors L ?sh n (detectors n) = Inr (ds, msgs')"
    and n': "n' = n\<lparr>detectors := ds, shared := ?sh, image_new := False\<rparr>"
    using assms(3) True
    by (auto simp: spinOnce_def Let_def then_ok_Inr_iff split: prod.splits)
  have rel: "list_all2 (entry_step L ?sh n) (detectors n) ds"
    using process_detectors_result [OF pr] by simp
  have a: "list_all (\<lambda>(k, (det, parent, name)). sint (tag_id det) = k \<and> det_inv det) (detectors n)"
    using assms(2) by (simp add: node_inv_def)
  have "list_all (\<lambda>(k, (det, parent, name)). sint (tag_id det) = k \<and> det_inv det) ds"
    using list_all2_entry_inv [OF wf rel list_all_weaken_entry [OF a]] .
  moreover have "map fst ds = map fst (detectors n)" using entry_step_keys [OF rel] .
  ultimately show ?thesis using assms(2) n' by (simp add: node_inv_def map_keys_ok_def)
qed

lemma addAprilTagService_inv:
  assumes "node_inv n"
  shows "node_inv (snd (addAprilTagService tid sz parent name n))"
proof -
  have "det_inv (new_detector (node_cam n) tid sz)" by (rule det_inv_new)
  moreover have "sint (tag_id (new_detector (node_cam n) tid sz)) = sint tid"
    by (simp add: new_detector_def)
  ultimately show ?thesis
    using assms
    by (auto simp: addAprilTagService_def node_inv_def map_keys_ok_def
        intro: map_emplace_sorted map_emplace_list_all)
qed

lemma node_step_inv:
  assumes "engine_wf engine" and "node_inv n" and "node_step engine L ev n = Inr (n', msgs)"
  shows "node_inv n'"
  using assms
proof (cases ev)
  case (CameraInfo cam)
  then show ?thesis using assms by (auto simp: cameraInfoCallback_def node_inv_def)
next
  case (FrameArrived img dm t)
  then show ?thesis using assms by (auto simp: frameCallback_def node_inv_def)
next
  case (AddAprilTag tid sz parent name)
  then show ?thesis using assms addAprilTagService_inv by auto
next
  case SpinOnce
  then show ?thesis using assms spinOnce_inv by auto
qed

lemma example_engine_wf: "engine_wf example_engine"
  by (simp add: engine_wf_def example_engine_def example_eval)

lemma example_node_reachable: "node_reachable example_engine example_lib example_node"
proof -
  let ?n0 = "node_init () example_cam True ''_tag'' True"
  let ?n1 = "snd (addAprilTagService 3 (1 / 10) ''camera'' ''tag3'' ?n0)"
  have r0: "node_reachable example_engine example_lib ?n0" by (rule node_reachable.init)
  have r1: "node_reachable example_engine example_lib ?n1"
    by (rule node_reachable.step [OF r0, of "AddAprilTag 3 (1 / 10) ''camera'' ''tag3''"]) simp
  have "node_step example_engine example_lib (FrameArrived () [] 7) ?n1 = Inr (example_node, [])"
    by (simp add: addAprilTagService_def frameCallback_def node_init_def example_node_def)
  then show ?thesis by (rule node_reachable.step [OF r1])
qed

lemma example_spin:
  "spinOnce example_engine example_lib example_node =
     Inr (example_node\<lparr>detectors := [(3, ((new_detector example_cam 3 (1 / 10))\<lparr>
                          image_points := example_polygon, state := newly_acquired_object\<rparr>,
                          ''camera'', ''tag3''))],
                       shared := example_frame, image_new := False\<rparr>,
          [PoseTF hm_identity ''camera'' ''tag3_tag'' 7, PoseTopic hm_identity ''camera'' ''tag3'' 7])"
proof -
  have sh: "snd (analyseImage example_engine (gray_image example_node) (depth_image example_node)
              (shared example_node)) = example_frame"
    by (simp add: analyseImage_def example_engine_def example_node_def node_init_def
        example_frame_def)
  have cam: "(new_detector example_cam 3 (1 / 10))\<lparr>cam_parameters := node_cam example_node\<rparr>
               = new_detector example_cam 3 (1 / 10)"
    by (simp add: example_node_def node_init_def new_detector_def)
  show ?thesis
    using sh cam example_detect_first
    by (simp add: spinOnce_def Let_def example_node_def node_init_def publish_def new_detector_def)
qed

lemma spinOnce_new_frame:
  assumes "image_new n" and "spinOnce engine L n = Inr (n', msgs)"
  obtains ds where
    "process_detectors L (snd (analyseImage engine (gray_image n) (depth_image n) (shared n))) n
       (detectors n) = Inr (ds, msgs)"
    and "n' = n\<lparr>detectors := ds,
                 shared := snd (analyseImage engine (gray_image n) (depth_image n) (shared n)),
                 image_new := False\<rparr>"
  using assms by (auto simp: spinOnce_def Let_def then_ok_Inr_iff split: prod.splits)

lemma reachable_node_inv:
  assumes "engine_wf engine" and "node_reachable engine L n"
  shows "node_inv n"
  using assms(2)
proof (induction rule: node_reachable.induct)
  case (init img cam tf postfix topic)
  then show ?case by (simp add: node_inv_def node_init_def map_keys_ok_def)
next
  case (step n ev n' msgs)
  then show ?case using node_step_inv [OF assms(1)] by blast
qed

lemma spinOnce_Inr:
  assumes "engine_wf engine"
  shows "\<exists>r. spinOnce engine L n = Inr r"
proof (cases "image_new n")
  case False
  then show ?thesis by (simp add: spinOnce_def)
next
  case True
  obtain r where "process_detectors L (snd (analyseImage engine (gray_image n) (depth_image n)
                    (shared n))) n (detectors n) = Inr r"
    using process_detectors_total [OF analyseImage_wf [OF assms]] by blast
  with True show ?thesis by (cases r) (simp add: spinOnce_def Let_def)
qed

section \<open>Properties of the session manager\<close>

text \<open>
  C12 (invariant): in every state the node can reach through camera updates, frames,
  registrations and spin passes, with an engine that keeps its contract, the detector map is
  ordered by strictly increasing identifier, each entry's key is its detector's identifier,
  and every detector satisfies the detector invariant (no object, no corners; acquired, four
  corners).
\<close>

theorem node_reachable_inv:
  assumes "engine_wf engine" and "node_reachable engine L n"
  shows "node_inv n"
  using assms by (rule reachable_node_inv)

theorem node_reachable_inv_witness:
  "node_reachable example_engine example_lib example_node \<and> map_keys_ok (detectors example_node)"
  using example_node_reachable node_reachable_inv [OF example_engine_wf example_node_reachable]
  by (simp add: node_inv_def)

text \<open>
  C11 (functional): a spin pass on a pending frame publishes, in key order, exactly the
  poses of the detectors that hold their tag after the frame (to tf with the postfixed
  child name and to the topic, as the flags select, stamped with the frame's time), and
  marks the frame as consumed.
\<close>

theorem spinOnce_publishes:
  assumes "image_new n" and "spinOnce engine L n = Inr (n', msgs)"
  shows "msgs = concat (map (published n) (detectors n')) \<and> \<not> image_new n'"
proof -
  obtain ds where pr: "process_detectors L (snd (analyseImage engine (gray_image n) (depth_image n)
                         (shared n))) n (detectors n) = Inr (ds, msgs)"
    and n': "n' = n\<lparr>detectors := ds,
                 shared := snd (analyseImage engine (gray_image n) (depth_image n) (shared n)),
                 image_new := False\<rparr>"
    by (rule spinOnce_new_frame [OF assms])
  then show ?thesis using process_detectors_result [OF pr] by simp
qed

theorem spinOnce_publishes_witness:
  "image_new example_node \<and>
   [PoseTF hm_identity ''camera'' ''tag3_tag'' 7, PoseTopic hm_identity ''camera'' ''tag3'' 7] =
     concat (map (published example_node)
       [(3, ((new_detector example_cam 3 (1 / 10))\<lparr>image_points := example_polygon,
               state := newly_acquired_object\<rparr>, ''camera'', ''tag3''))])"
proof -
  have i: "image_new example_node" by (simp add: example_node_def)
  show ?thesis
    using spinOnce_publishes [OF i example_spin] i by simp
qed

text \<open>
  C17 (error): with an engine that keeps its contract, a spin pass never throws and never
  reads out of range, whatever the node's state.
\<close>

theorem spinOnce_total:
  assumes "engine_wf engine"
  shows "\<exists>r. spinOnce engine L n = Inr r"
  using assms by (rule spinOnce_Inr)

theorem spinOnce_total_witness: "\<exists>r. spinOnce example_engine example_lib example_node = Inr r"
  using spinOnce_total [OF example_engine_wf] .

end
