(* ===== verification/Node_Spec.thy ===== *)
theory Node_Spec
  imports Tracking_Node
begin

text \<open>
  An abstract specification of the session manager, per tag, and the proof that the node of
  \<open>Tracking_Node\<close> implements it. The spec (sections 2, 4.2 and 5) describes the node as a
  table from tag identifier to acquisition state, with at most one pending frame: a
  registration adds an identifier in state \<open>no_object\<close> unless it is present; a frame
  becomes the pending one; a spin pass moves every tracked identifier by the acquisition
  machine \<open>acquisition_step\<close>, found when one decoded message of the pending image ends
  with a space and the identifier's decimal text, and consumes the frame. The abstraction
  \<open>node_abs\<close> forgets the detectors' geometry, the poses and the camera; \<open>node_run\<close>
  delivers a sequence of events one at a time, as the mutexes of node.hpp serialise them.
\<close>

section \<open>The abstract specification\<close>

record 'img tag_table =
  tracked :: "int \<rightharpoonup> tag_state"
  pending :: "'img option"

definition found_in :: "int \<Rightarrow> detection list \<Rightarrow> bool" where
  "found_in k dets \<longleftrightarrow> list_ex (\<lambda>(msg, polygon). suffix (CHR '' '' # to_string_int k) msg) dets"

fun spec_step :: "('img \<Rightarrow> detection list) \<Rightarrow> 'img event \<Rightarrow> 'img tag_table \<Rightarrow> 'img tag_table" where
  "spec_step engine (CameraInfo cam) t = t"
| "spec_step engine (FrameArrived img dm stamp) t = t\<lparr>pending := Some img\<rparr>"
| "spec_step engine (AddAprilTag tid sz parent name) t =
     (if tracked t (sint tid) \<noteq> None then t
      else t\<lparr>tracked := (tracked t)(sint tid \<mapsto> no_object)\<rparr>)"
| "spec_step engine SpinOnce t =
     (case pending t of
        None \<Rightarrow> t
      | Some img \<Rightarrow>
          t\<lparr>tracked := (\<lambda>k. map_option (\<lambda>s. acquisition_step s (found_in k (engine img)) True)
                              (tracked t k)),
            pending := None\<rparr>)"

section \<open>Abstraction and runs\<close>

definition tag_states :: "entry int_map \<Rightarrow> int \<rightharpoonup> tag_state" where
  "tag_states m = map_of (map (\<lambda>(k, e). (k, state (fst e))) m)"

definition node_abs :: "'img node \<Rightarrow> 'img tag_table" where
  "node_abs n =
     \<lparr>tracked = tag_states (detectors n),
      pending = (if image_new n then Some (gray_image n) else None)\<rparr>"

text \<open>Events delivered one after the other; an exception stops the run.\<close>

fun node_run ::
  "('img \<Rightarrow> detection list) \<Rightarrow> pose_lib \<Rightarrow> 'img event list \<Rightarrow> 'img node
     \<Rightarrow> cpp_error + 'img node \<times> pose_msg list" where
  "node_run engine L [] n = Inr (n, [])"
| "node_run engine L (ev # evs) n =
     then_ok (node_step engine L ev n) (\<lambda>(n1, ms1).
       then_ok (node_run engine L evs n1) (\<lambda>(n2, ms2). Inr (n2, ms1 @ ms2)))"

text \<open>The time stamp a publication carries, and the stamps of the frames of a sequence.\<close>

fun msg_stamp :: "pose_msg \<Rightarrow> nat" where
  "msg_stamp (PoseTF M parent child t) = t"
| "msg_stamp (PoseTopic M parent child t) = t"

fun frame_stamps :: "'img event list \<Rightarrow> nat list" where
  "frame_stamps [] = []"
| "frame_stamps (FrameArrived img dm t # evs) = t # frame_stamps evs"
| "frame_stamps (CameraInfo cam # evs) = frame_stamps evs"
| "frame_stamps (AddAprilTag tid sz parent name # evs) = frame_stamps evs"
| "frame_stamps (SpinOnce # evs) = frame_stamps evs"

section \<open>Lemmas\<close>

lemma tag_states_map_of: "tag_states m = map_option (state \<circ> fst) \<circ> map_of m"
  by (induction m) (auto simp: tag_states_def fun_eq_iff)

lemma tag_states_None: "(tag_states m k = None) = (k \<notin> set (map fst m))"
  by (simp add: tag_states_map_of map_of_eq_None_iff image_iff)

lemma tag_states_emplace:
  assumes "k \<notin> set (map fst m)"
  shows "tag_states (map_emplace k (d, p, nm) m) = (tag_states m)(k \<mapsto> state d)"
  using assms by (simp add: tag_states_map_of map_of_map_emplace fun_eq_iff)

lemma tag_found_key:
  assumes "sint (tag_id d) = k"
  shows "list_ex (tag_found (tag_id d)) dets = found_in k dets"
  using assms
  by (simp add: found_in_def list_ex_iff tag_found_def tag_string_def to_string_def
      case_prod_beta')

lemma entry_step_state:
  assumes "frame_wf sh" and "entry_step L sh n (k, (d, p, nm)) (k', (d', p', nm'))"
    and "sint (tag_id d) = k"
  shows "k' = k \<and> state d' = acquisition_step (state d) (found_in k (detections sh)) True"
proof -
  obtain ok where dt: "detect L sh (d\<lparr>cam_parameters := node_cam n\<rparr>) = Inr (ok, d')"
    and k: "k' = k" using assms(2) by (auto simp: entry_step_def)
  obtain d'' where "detect L sh (d\<lparr>cam_parameters := node_cam n\<rparr>) =
      Inr (list_ex (tag_found (tag_id d)) (detections sh), d'') \<and>
      state d'' = acquisition_step (state d) (list_ex (tag_found (tag_id d)) (detections sh)) True"
    using detect_wf_outcome [OF assms(1), of L "d\<lparr>cam_parameters := node_cam n\<rparr>"] by auto
  with dt k show ?thesis using tag_found_key [OF assms(3)] by simp
qed

lemma entry_step_tag_states:
  assumes "frame_wf sh" and "list_all2 (entry_step L sh n) m ds"
    and "list_all (\<lambda>(k, (det, parent, name)). sint (tag_id det) = k) m"
  shows "tag_states ds =
           (\<lambda>k. map_option (\<lambda>s. acquisition_step s (found_in k (detections sh)) True)
                  (tag_states m k))"
  using assms(2,3)
proof (induction m ds rule: list_all2_induct)
  case Nil
  then show ?case by (simp add: tag_states_def)
next
  case (Cons e m e' ds)
  obtain k d p nm k' d' p' nm' where e: "e = (k, (d, p, nm))" and e': "e' = (k', (d', p', nm'))"
    by (cases e, cases e') auto
  have "sint (tag_id d) = k" using Cons.prems e by simp
  then have "k' = k \<and> state d' = acquisition_step (state d) (found_in k (detections sh)) True"
    using entry_step_state [OF assms(1)] Cons.hyps(1) e e' by blast
  then show ?case using Cons e e' by (simp add: tag_states_def fun_eq_iff)
qed

lemma node_step_spinOnce_abs:
  assumes "engine_wf engine" and "node_inv n" and "spinOnce engine L n = Inr (n', msgs)"
  shows "node_abs n' = spec_step engine SpinOnce (node_abs n)"
proof (cases "image_new n")
  case False
  then show ?thesis using assms(3) by (simp add: spinOnce_def node_abs_def)
next
  case True
  let ?sh = "snd (analyseImage engine (gray_image n) (depth_image n) (shared n))"
  obtain ds where pr: "process_detectors L ?sh n (detectors n) = Inr (ds, msgs)"
    and n': "n' = n\<lparr>detectors := ds, shared := ?sh, image_new := False\<rparr>"
    by (rule spinOnce_new_frame [OF True assms(3)])
  have rel: "list_all2 (entry_step L ?sh n) (detectors n) ds"
    using process_detectors_result [OF pr] by simp
  have keys: "list_all (\<lambda>(k, (det, parent, name)). sint (tag_id det) = k) (detectors n)"
    using assms(2) by (auto simp: node_inv_def list_all_iff)
  have "detections ?sh = engine (gray_image n)" by (simp add: analyseImage_def)
  then show ?thesis
    using entry_step_tag_states [OF analyseImage_wf [OF assms(1)] rel keys] True n'
    by (simp add: node_abs_def)
qed

lemma node_step_total:
  assumes "engine_wf engine"
  shows "\<exists>r. node_step engine L ev n = Inr r"
proof (cases ev)
  case SpinOnce
  then show ?thesis using spinOnce_Inr [OF assms] by simp
qed simp_all

lemma node_step_abs:
  assumes "engine_wf engine" and "node_inv n" and "node_step engine L ev n = Inr (n', msgs)"
  shows "node_abs n' = spec_step engine ev (node_abs n)"
proof (cases ev)
  case (CameraInfo cam)
  then show ?thesis using assms(3) by (auto simp: cameraInfoCallback_def node_abs_def)
next
  case (FrameArrived img dm t)
  then show ?thesis using assms(3) by (auto simp: frameCallback_def node_abs_def)
next
  case (AddAprilTag tid sz parent name)
  show ?thesis
  proof (cases "sint tid \<in> set (map fst (detectors n))")
    case True
    then have "tag_states (detectors n) (sint tid) \<noteq> None" by (simp add: tag_states_None)
    then show ?thesis using AddAprilTag assms(3) True
      by (simp add: addAprilTagService_def node_abs_def)
  next
    case False
    then have "tag_states (detectors n) (sint tid) = None" by (simp add: tag_states_None)
    moreover have "n' = n\<lparr>detectors := map_emplace (sint tid)
                            (new_detector (node_cam n) tid sz, parent, name) (detectors n)\<rparr>"
      using AddAprilTag assms(3) False by (simp add: addAprilTagService_def)
    ultimately show ?thesis using AddAprilTag tag_states_emplace [OF False]
      by (simp add: node_abs_def new_detector_def)
  qed
next
  case SpinOnce
  then show ?thesis using assms node_step_spinOnce_abs by simp
qed

lemma node_run_abs:
  assumes "engine_wf engine" and "node_inv n"
  shows "\<exists>n' msgs. node_run engine L evs n = Inr (n', msgs) \<and> node_inv n' \<and>
           node_abs n' = fold (spec_step engine) evs (node_abs n)"
  using assms(2)
proof (induction evs arbitrary: n)
  case Nil
  then show ?case by simp
next
  case (Cons ev evs)
  obtain n1 ms1 where st: "node_step engine L ev n = Inr (n1, ms1)"
    using node_step_total [OF assms(1)] by fastforce
  have inv1: "node_inv n1" using node_step_inv [OF assms(1) Cons.prems st] .
  have abs1: "node_abs n1 = spec_step engine ev (node_abs n)"
    using node_step_abs [OF assms(1) Cons.prems st] .
  obtain n2 ms2 where "node_run engine L evs n1 = Inr (n2, ms2)" and "node_inv n2"
    and "node_abs n2 = fold (spec_step engine) evs (node_abs n1)"
    using Cons.IH [OF inv1] by blast
  then show ?case using st abs1 by simp
qed

lemma publish_fields:
  assumes "broadcast_tf n' = broadcast_tf n" and "broadcast_topic n' = broadcast_topic n"
    and "broadcast_tf_postfix n' = broadcast_tf_postfix n" and "image_stamp n' = image_stamp n"
  shows "publish n' = publish n"
  using assms by (simp add: publish_def fun_eq_iff)

lemma node_step_keys:
  assumes "node_step engine L ev n = Inr (n', msgs)"
  shows "set (map fst (detectors n)) \<subseteq> set (map fst (detectors n'))"
proof (cases ev)
  case (AddAprilTag tid sz parent name)
  have "detectors n' = detectors n \<or>
        detectors n' = map_emplace (sint tid) (new_detector (node_cam n) tid sz, parent, name)
                         (detectors n)"
    using assms AddAprilTag by (auto simp: addAprilTagService_def split: if_splits)
  then show ?thesis by (auto simp only: keys_map_emplace)
next
  case SpinOnce
  show ?thesis
  proof (cases "image_new n")
    case True
    let ?sh = "snd (analyseImage engine (gray_image n) (depth_image n) (shared n))"
    obtain ds where pr: "process_detectors L ?sh n (detectors n) = Inr (ds, msgs)"
      and n': "n' = n\<lparr>detectors := ds, shared := ?sh, image_new := False\<rparr>"
      using spinOnce_new_frame [OF True, of engine L n' msgs] assms SpinOnce by auto
    have "map fst ds = map fst (detectors n)"
      using entry_step_keys process_detectors_result [OF pr] by blast
    then show ?thesis using n' by simp
  next
    case False
    then show ?thesis using assms SpinOnce by (simp add: spinOnce_def)
  qed
qed (use assms in \<open>auto simp: cameraInfoCallback_def frameCallback_def\<close>)

lemma published_stamps:
  "set (map msg_stamp (concat (map (published n) ds))) \<subseteq> {image_stamp n}"
  by (induction ds) (auto simp: published_def publish_def split: prod.splits)

lemma frame_stamps_Cons: "frame_stamps (ev # evs) = frame_stamps [ev] @ frame_stamps evs"
  by (cases ev) simp_all

lemma node_step_stamps:
  assumes "node_step engine L ev n = Inr (n', msgs)"
  shows "set (map msg_stamp msgs) \<subseteq> {image_stamp n} \<and>
         image_stamp n' \<in> insert (image_stamp n) (set (frame_stamps [ev]))"
proof (cases ev)
  case (CameraInfo cam)
  then show ?thesis using assms by (auto simp: cameraInfoCallback_def)
next
  case (FrameArrived img dm t)
  then show ?thesis using assms by (auto simp: frameCallback_def)
next
  case (AddAprilTag tid sz parent name)
  have "image_stamp (snd (addAprilTagService tid sz parent name n)) = image_stamp n"
    by (simp add: addAprilTagService_def)
  then show ?thesis using assms AddAprilTag by auto
next
  case SpinOnce
  show ?thesis
  proof (cases "image_new n")
    case True
    obtain ds where pr: "process_detectors L (snd (analyseImage engine (gray_image n)
                           (depth_image n) (shared n))) n (detectors n) = Inr (ds, msgs)"
      and n': "n' = n\<lparr>detectors := ds,
                 shared := snd (analyseImage engine (gray_image n) (depth_image n) (shared n)),
                 image_new := False\<rparr>"
      using spinOnce_new_frame [OF True, of engine L n' msgs] assms SpinOnce by auto
    have "msgs = concat (map (published n) ds)" using process_detectors_result [OF pr] by simp
    then show ?thesis using n' published_stamps [of n ds] by simp
  next
    case False
    then show ?thesis using assms SpinOnce by (simp add: spinOnce_def)
  qed
qed

section \<open>Properties\<close>

text \<open>
  C13 (refinement): the node implements the abstract per-tag specification over every
  sequence of events. From any reachable state, with an engine that keeps its contract, the
  events are all handled without an error, and the tag table of the final state (each
  identifier's acquisition state, and the pending frame) is the one the specification
  computes by folding \<open>spec_step\<close> over the same events.
\<close>

theorem node_run_refines:
  assumes "engine_wf engine" and "node_reachable engine L n"
  shows "\<exists>n' msgs. node_run engine L evs n = Inr (n', msgs) \<and>
           node_abs n' = fold (spec_step engine) evs (node_abs n)"
  using node_run_abs [OF assms(1) reachable_node_inv [OF assms]] by blast

theorem node_run_refines_witness:
  "node_reachable example_engine example_lib example_node \<and>
   (\<exists>n' msgs. node_run example_engine example_lib [SpinOnce, SpinOnce] example_node = Inr (n', msgs) \<and>
      node_abs n' = fold (spec_step example_engine) [SpinOnce, SpinOnce] (node_abs example_node))"
  using example_node_reachable
    node_run_refines [OF example_engine_wf example_node_reachable, of "[SpinOnce, SpinOnce]"]
  by simp

text \<open>
  C14 (liveness): a registered tag that is visible in a frame is published at the next spin
  pass. If the node holds a detector for identifier \<open>k\<close> and the recognition engine
  finds, in a new image, a message ending with a space and \<open>k\<close>, then the frame and
  the spin pass that follows are handled without an error, the detector under \<open>k\<close>
  (same names) is in an acquired state, the node carries the frame's stamp, and every
  publication of its new pose the node's flags select is among the messages of that pass.
\<close>

theorem registered_tag_published:
  assumes "engine_wf engine" and "node_reachable engine L n"
    and "(k, (d, parent, name)) \<in> set (detectors n)" and "found_in k (engine img)"
  shows "\<exists>n' msgs d'. node_run engine L [FrameArrived img dm stamp, SpinOnce] n = Inr (n', msgs) \<and>
           (k, (d', parent, name)) \<in> set (detectors n') \<and> state d' \<noteq> no_object \<and>
           image_stamp n' = stamp \<and> set (publish n' (cMo d') parent name) \<subseteq> set msgs"
proof -
  have inv: "node_inv n" using reachable_node_inv [OF assms(1,2)] .
  let ?n1 = "frameCallback img dm stamp n"
  have new: "image_new ?n1" by (simp add: frameCallback_def)
  obtain r where sp: "spinOnce engine L ?n1 = Inr r" using spinOnce_Inr [OF assms(1)] by blast
  obtain n' msgs where r: "r = (n', msgs)" by fastforce
  let ?sh = "snd (analyseImage engine (gray_image ?n1) (depth_image ?n1) (shared ?n1))"
  obtain ds where pr: "process_detectors L ?sh ?n1 (detectors ?n1) = Inr (ds, msgs)"
    and n': "n' = ?n1\<lparr>detectors := ds, shared := ?sh, image_new := False\<rparr>"
    using spinOnce_new_frame [OF new sp [unfolded r]] by blast
  have rel: "list_all2 (entry_step L ?sh ?n1) (detectors n) ds"
    and msgs: "msgs = concat (map (published ?n1) ds)"
    using process_detectors_result [OF pr] by (simp_all add: frameCallback_def)
  obtain e' where e': "e' \<in> set ds" and st: "entry_step L ?sh ?n1 (k, (d, parent, name)) e'"
    using list_all2_set_left [OF rel assms(3)] by blast
  obtain k' d' p' nm' where e'_def: "e' = (k', (d', p', nm'))" by (cases e') auto
  have key: "sint (tag_id d) = k"
    using inv assms(3) by (auto simp: node_inv_def list_all_iff)
  have "detections ?sh = engine img" by (simp add: analyseImage_def frameCallback_def)
  then have "k' = k \<and> state d' = acquisition_step (state d) (found_in k (engine img)) True"
    using entry_step_state [OF analyseImage_wf [OF assms(1)] st [unfolded e'_def] key] by simp
  then have kk: "k' = k" and acq: "state d' \<noteq> no_object" using assms(4) by simp_all
  have "p' = parent \<and> nm' = name" using st e'_def by (simp add: entry_step_def)
  then have mem: "(k, (d', parent, name)) \<in> set ds" using e' e'_def kk by simp
  have pub: "publish n' = publish ?n1"
    using n' by (intro publish_fields) simp_all
  have "published ?n1 (k, (d', parent, name)) = publish ?n1 (cMo d') parent name"
    using acq by (simp add: published_def)
  then have "set (publish n' (cMo d') parent name) \<subseteq> set msgs"
    using mem msgs pub by auto
  moreover have "(k, (d', parent, name)) \<in> set (detectors n')" using mem n' by simp
  ultimately have "(k, (d', parent, name)) \<in> set (detectors n') \<and> state d' \<noteq> no_object \<and>
      set (publish n' (cMo d') parent name) \<subseteq> set msgs"
    using acq by blast
  moreover have "image_stamp n' = stamp" using n' by (simp add: frameCallback_def)
  moreover have "node_run engine L [FrameArrived img dm stamp, SpinOnce] n = Inr (n', msgs)"
    using sp r by simp
  ultimately show ?thesis by blast
qed

theorem registered_tag_published_witness:
  "node_reachable example_engine example_lib example_node \<and>
   (3, (new_detector example_cam 3 (1 / 10), ''camera'', ''tag3'')) \<in> set (detectors example_node) \<and>
   found_in 3 (example_engine ()) \<and>
   (\<exists>n' msgs d'. node_run example_engine example_lib [FrameArrived () [] 8, SpinOnce] example_node
        = Inr (n', msgs) \<and>
      (3, (d', ''camera'', ''tag3'')) \<in> set (detectors n') \<and> state d' \<noteq> no_object \<and>
      image_stamp n' = 8 \<and> set (publish n' (cMo d') ''camera'' ''tag3'') \<subseteq> set msgs)"
proof -
  have mem: "(3, (new_detector example_cam 3 (1 / 10), ''camera'', ''tag3'')) \<in> set (detectors example_node)"
    by (simp add: example_node_def)
  have found: "found_in 3 (example_engine ())"
    by (simp add: found_in_def example_engine_def example_eval)
  show ?thesis
    using example_node_reachable mem found
      registered_tag_published [OF example_engine_wf example_node_reachable mem found,
        of "[]" 8]
    by blast
qed

text \<open>
  C16 (safety): registrations are permanent. Over any sequence of events that the node
  handles without an error, every identifier that has a detector keeps one: frames, camera
  updates, spin passes and further registrations never remove an entry of the map (the spec's
  lifecycle, section 3: a detector persists until the process ends).
\<close>

theorem node_run_keeps_detectors:
  assumes "node_run engine L evs n = Inr (n', msgs)"
  shows "set (map fst (detectors n)) \<subseteq> set (map fst (detectors n'))"
  using assms
proof (induction evs arbitrary: n msgs)
  case Nil
  then show ?case by simp
next
  case (Cons ev evs)
  obtain n1 ms1 where st: "node_step engine L ev n = Inr (n1, ms1)"
    using Cons.prems by (cases "node_step engine L ev n") auto
  obtain ms2 where "node_run engine L evs n1 = Inr (n', ms2)"
    using Cons.prems st by (cases "node_run engine L evs n1") auto
  then show ?case using Cons.IH node_step_keys [OF st] by blast
qed

theorem node_run_keeps_detectors_witness:
  "\<exists>n' msgs. node_run example_engine example_lib [SpinOnce, AddAprilTag 5 (1 / 10) ''camera'' ''tag5'']
       example_node = Inr (n', msgs) \<and>
     set (map fst (detectors example_node)) \<subseteq> set (map fst (detectors n'))"
proof -
  let ?evs = "[SpinOnce, AddAprilTag 5 (1 / 10) ''camera'' ''tag5'']"
  obtain n' msgs where r: "node_run example_engine example_lib ?evs example_node = Inr (n', msgs)"
    using node_run_abs [OF example_engine_wf reachable_node_inv [OF example_engine_wf
        example_node_reachable], of example_lib ?evs] by blast
  show ?thesis using r node_run_keeps_detectors [OF r] by blast
qed

text \<open>
  C22 (safety): no pose is published with a time stamp that was never received. Over any
  sequence of events the node handles without an error, every message carries either the
  stamp the node held at the start or the stamp of a frame delivered in the sequence.
\<close>

theorem published_stamps_received:
  assumes "node_run engine L evs n = Inr (n', msgs)"
  shows "set (map msg_stamp msgs) \<subseteq> insert (image_stamp n) (set (frame_stamps evs))"
  using assms
proof (induction evs arbitrary: n msgs)
  case Nil
  then show ?case by simp
next
  case (Cons ev evs)
  obtain n1 ms1 where st: "node_step engine L ev n = Inr (n1, ms1)"
    using Cons.prems by (cases "node_step engine L ev n") auto
  obtain ms2 where run: "node_run engine L evs n1 = Inr (n', ms2)" and msgs: "msgs = ms1 @ ms2"
    using Cons.prems st by (cases "node_run engine L evs n1") auto
  have "set (map msg_stamp ms2) \<subseteq> insert (image_stamp n1) (set (frame_stamps evs))"
    using Cons.IH [OF run] .
  then show ?case
    using node_step_stamps [OF st] msgs frame_stamps_Cons [of ev evs] by auto
qed

theorem published_stamps_received_witness:
  "\<exists>n' msgs. node_run example_engine example_lib [FrameArrived () [] 8, SpinOnce] example_node
       = Inr (n', msgs) \<and>
     set (map msg_stamp msgs) \<subseteq>
       insert (image_stamp example_node) (set (frame_stamps [FrameArrived () [] 8, SpinOnce]))"
proof -
  let ?evs = "[FrameArrived () [] 8, SpinOnce]"
  obtain n' msgs where r: "node_run example_engine example_lib ?evs example_node = Inr (n', msgs)"
    using node_run_abs [OF example_engine_wf reachable_node_inv [OF example_engine_wf
        example_node_reachable], of example_lib ?evs] by blast
  show ?thesis using r published_stamps_received [OF r] by blast
qed

end
