(* ===== verification/Node_Spin.thy ===== *)
theory Node_Spin
  imports Node_Spec
begin

text \<open>
  The main loop \<open>Node::spin\<close> (src/include/agimus_vision/tracker_object/node.hpp,
  line 105; its body is not in the repository, so it is modelled from the spec, sections 4.1
  and 5). While \<open>ros::ok()\<close> holds, each iteration processes the pending frame, if any,
  to completion (the event \<open>SpinOnce\<close>), then lets ROS deliver the callbacks that arrived
  meanwhile (camera parameters, frames, registrations), one at a time. The ROS side is an
  event source \<open>ros\<close>: \<open>ros i\<close> is \<open>None\<close> when \<open>ros::ok()\<close> is false at
  iteration \<open>i\<close>, and otherwise the callbacks delivered in that iteration. The loop runs
  forever while ROS is up, so it is a \<open>partial_function (option)\<close>: \<open>None\<close> is "does not
  return". The lemmas show that it returns exactly when ROS shuts down.
\<close>

section \<open>The loop\<close>

partial_function (option) spin ::
  "('img \<Rightarrow> detection list) \<Rightarrow> pose_lib \<Rightarrow> (nat \<Rightarrow> 'img event list option) \<Rightarrow> nat
     \<Rightarrow> 'img node \<Rightarrow> (cpp_error + 'img node \<times> pose_msg list) option" where
  "spin engine L ros i n =
     (case ros i of
        None \<Rightarrow> Some (Inr (n, []))
      | Some cbs \<Rightarrow>
          (case node_run engine L (SpinOnce # cbs) n of
             Inl e \<Rightarrow> Some (Inl e)
           | Inr (n1, ms1) \<Rightarrow>
               Option.bind (spin engine L ros (Suc i) n1)
                 (\<lambda>r. Some (then_ok r (\<lambda>(n2, ms2). Inr (n2, ms1 @ ms2))))))"

text \<open>
  A ROS session for the witnesses: a first iteration that receives a frame stamped 9, a
  second with no callback, then shutdown.
\<close>

definition example_ros :: "nat \<Rightarrow> unit event list option" where
  "example_ros j = (if j = 0 then Some [FrameArrived () [] 9] else if j = 1 then Some [] else None)"

section \<open>Lemmas\<close>

lemma spin_shutdown_returns:
  assumes "engine_wf engine" and "node_inv n" and "ros (i + k) = None"
  shows "\<exists>r. spin engine L ros i n = Some (Inr r)"
  using assms(2,3)
proof (induction k arbitrary: i n)
  case 0
  then show ?case by (simp add: spin.simps)
next
  case (Suc k)
  show ?case
  proof (cases "ros i")
    case None
    then show ?thesis by (simp add: spin.simps)
  next
    case (Some cbs)
    obtain n1 ms1 where run: "node_run engine L (SpinOnce # cbs) n = Inr (n1, ms1)"
      and "node_inv n1"
      using node_run_abs [OF assms(1) Suc.prems(1), of L "SpinOnce # cbs"] by blast
    moreover have "ros (Suc i + k) = None" using Suc.prems(2) by simp
    ultimately obtain r where "spin engine L ros (Suc i) n1 = Some (Inr r)"
      using Suc.IH by blast
    then show ?thesis using Some run by (cases r) (simp add: spin.simps)
  qed
qed

lemma spin_returns_shutdown:
  assumes "spin engine L ros i n = Some y"
  shows "engine_wf engine \<longrightarrow> node_inv n \<longrightarrow> (\<exists>j \<ge> i. ros j = None)"
  apply (rule spin.raw_induct [where P = "\<lambda>engine L ros i n y.
    engine_wf engine \<longrightarrow> node_inv n \<longrightarrow> (\<exists>j \<ge> i. ros j = None)", OF _ assms])
  subgoal premises prems for f engine L ros i n y
  proof (intro impI)
    assume wf: "engine_wf engine" and inv: "node_inv n"
    show "\<exists>j \<ge> i. ros j = None"
    proof (cases "ros i")
      case None
      then show ?thesis by blast
    next
      case (Some cbs)
      obtain n1 ms1 where run: "node_run engine L (SpinOnce # cbs) n = Inr (n1, ms1)"
        and inv1: "node_inv n1"
        using node_run_abs [OF wf inv, of L "SpinOnce # cbs"] by blast
      obtain y' where "f engine L ros (Suc i) n1 = Some y'"
        using prems(2) Some run by (cases "f engine L ros (Suc i) n1") simp_all
      then have "\<exists>j \<ge> Suc i. ros j = None" using prems(1) wf inv1 by blast
      then show ?thesis by (meson Suc_leD)
    qed
  qed
  done

section \<open>Properties of the main loop\<close>

text \<open>
  C15 (termination): from a reachable state, with an engine that keeps its contract, the
  main loop returns exactly when \<open>ros::ok()\<close> eventually fails: it runs forever
  (\<open>None\<close>) when ROS never shuts down, and otherwise returns, never with an error.
\<close>

theorem spin_returns_iff:
  assumes "engine_wf engine" and "node_reachable engine L n"
  shows "(spin engine L ros i n = None) = (\<not> (\<exists>j. i \<le> j \<and> ros j = None)) \<and>
         (\<forall>e. spin engine L ros i n \<noteq> Some (Inl e))"
proof -
  have inv: "node_inv n" using reachable_node_inv [OF assms] .
  show ?thesis
  proof (cases "\<exists>j. i \<le> j \<and> ros j = None")
    case True
    then obtain k where "ros (i + k) = None" using le_Suc_ex by blast
    then obtain r where "spin engine L ros i n = Some (Inr r)"
      using spin_shutdown_returns [OF assms(1) inv] by blast
    then show ?thesis using True by simp
  next
    case False
    have "spin engine L ros i n = None"
    proof (rule ccontr)
      assume "spin engine L ros i n \<noteq> None"
      then obtain y where "spin engine L ros i n = Some y" by blast
      then show False using spin_returns_shutdown [of engine L ros i n y] assms(1) inv False
        by blast
    qed
    then show ?thesis using False by simp
  qed
qed

theorem spin_returns_iff_witness:
  "node_reachable example_engine example_lib example_node \<and>
   spin example_engine example_lib example_ros 0 example_node \<noteq> None \<and>
   spin example_engine example_lib example_ros 0 example_node \<noteq> Some (Inl Undefined_behaviour)"
proof -
  have "\<exists>j. 0 \<le> j \<and> example_ros j = None"
    by (rule exI [of _ 2]) (simp add: example_ros_def)
  then show ?thesis
    using example_node_reachable
      spin_returns_iff [OF example_engine_wf example_node_reachable, of example_ros 0]
    by blast
qed

end
