(* ===== verification/Spec2Isabelle.thy ===== *)
theory Spec2Isabelle
  imports Node_Spin
begin

text \<open>
  \<^bold>\<open>Verification development of agimus-vision's April-tag tracker.\<close>

  \<^emph>\<open>The program.\<close> The repository tracks fiducial markers in a camera stream. Its core is
  class \<open>DetectorAprilTag\<close> (src/src/tracker_object/detector_apriltag.cpp): one object per
  configured tag identifier, sharing two static members, the ViSP tag detector and the depth
  map of the current frame. \<open>analyseImage\<close> runs the recognition engine once per frame;
  \<open>detect\<close> scans the decoded messages for one ending in a space and the identifier,
  copies that tag's corners, moves the acquisition state (\<open>no_object\<close>,
  \<open>newly_acquired_object\<close>, \<open>already_acquired_object\<close>) and calls
  \<open>computePose\<close>, which converts the corners to metres, pairs them with the corners of
  \<open>compute3DPoints\<close> and solves the pose with RGB-D alignment on first acquisition or
  with virtual visual servoing, warm-started from the previous pose, while tracking;
  \<open>drawDebug\<close> draws the result. The session manager \<open>Node\<close>
  (src/include/agimus_vision/tracker_object/node.hpp, declaration only) holds the detectors
  in a \<open>std::map\<close>, receives camera parameters, frames and registrations, runs every
  detector on each frame and publishes the poses.

  \<^emph>\<open>The theories.\<close>
  \<^item> \<open>Prelude\<close>: the C++ types (\<open>int\<close> as \<open>32 word\<close>, \<open>size_t\<close> as
    \<open>64 word\<close>), the failure type \<open>cpp_error\<close> (\<open>Out_of_range\<close> for a thrown
    \<open>std::out_of_range\<close>, \<open>Undefined_behaviour\<close> for an out-of-range vector read), its
    sequencing \<open>then_ok\<close>, and shared lemmas on suffixes, lists and \<open>size_t\<close>.
  \<^item> \<open>Cpp_String\<close>: \<open>std::to_string\<close> of an \<open>int\<close>, \<open>std::string::size\<close> and
    \<open>compare(pos, len, str)\<close>; a decimal parser proves \<open>to_string\<close> injective, which
    the uniqueness of tag matches (C9) needs.
  \<^item> \<open>Tag_Match\<close>: lines 35-42, the suffix test with its \<open>size_t\<close> guard (C8, C9).
  \<^item> \<open>Camera\<close>: the ViSP camera parameters without distortion and the pixel-to-metre
    conversion called at line 106.
  \<^item> \<open>Geometry\<close>: \<open>vpPoint\<close>, \<open>vpHomogeneousMatrix\<close>, projection, the residual of
    \<open>vpPose::computeResidual\<close> and \<open>compute3DPoints\<close> (lines 128-140) (C19).
  \<^item> \<open>Detector\<close>: the record \<open>detector_apriltag\<close> for the object, \<open>apriltag_shared\<close>
    for the static members, \<open>new_detector\<close>, \<open>analyseImage\<close>, \<open>computePose\<close>,
    \<open>detect_loop\<close> and \<open>detect\<close> (lines 17-126) and \<open>drawDebug\<close> (lines 63-73);
    the abstract acquisition machine \<open>acquisition_step\<close> of the spec; the inductive
    \<open>det_reachable\<close> of the detectors a program can hold (C1-C5, C7, C10, C18, C20, C21).
  \<^item> \<open>Ordered_Map\<close>: \<open>std::map<int, _>\<close> as a key-ordered association list and its
    \<open>emplace\<close>.
  \<^item> \<open>Tracking_Node\<close>: the node's state from the header's members and its operations from
    the spec (callbacks, registration, one spin pass, publication), since node.cpp is not in
    the repository; the inductive \<open>node_reachable\<close> (C11, C12, C17).
  \<^item> \<open>Node_Spec\<close>: an abstract per-tag specification (a table from identifier to
    acquisition state, and the pending frame) with its step function \<open>spec_step\<close>, the
    abstraction \<open>node_abs\<close>, runs \<open>node_run\<close> of event sequences, and the refinement,
    liveness, persistence and publication-stamp theorems (C13, C14, C16, C22).
  \<^item> \<open>Node_Spin\<close>: the main loop \<open>Node::spin\<close> as a \<open>partial_function (option)\<close>
    over a ROS event source (C15).
  \<^item> This theory: runs of a detector over a sequence of frames (C6).

  \<^emph>\<open>What is shown.\<close> The detection step refines the spec's acquisition machine
  (C1, C6), taking the first matching message (C10); a failing call resets the detector to
  no object and no corners while keeping the last pose (C2, C3), which makes the reset of
  lines 53-55 dead code; the RGB-D and tracking paths compute what the spec says, including
  the warm start (C4, C5), and the RGB-D solver's failure is silently reported as success
  with a stale pose (C4); a polygon of fewer than four corners makes \<open>detect\<close> read out
  of range (C18); reachable detectors and nodes keep their invariants (C7, C12); the
  message filter is exactly a suffix test that never throws and never matches two
  identifiers (C8, C9); the reference corners form the square of the spec (C19); the debug
  overlay of a reachable detector never reads out of range and draws the closed polygon
  (C20, C21). For the node, modelled from the spec: a spin pass publishes exactly the
  acquired poses and never throws (C11, C17); the whole node refines the abstract per-tag
  specification over every event sequence (C13); a visible registered tag is published at
  the next spin pass (C14); registrations are never lost (C16); every publication carries
  the stamp of a received frame (C22); and the main loop returns exactly when ROS shuts
  down (C15).

  \<^emph>\<open>Bounds and contracts.\<close> Every loop of the source code runs over a finite list, so
  every function modelling it is total and executable. The one loop that may not end is
  \<open>Node::spin\<close>; it is a \<open>partial_function (option)\<close>, and C15 proves when it returns
  instead of assuming it. The bound \<open>length msg < 2^64\<close> (a \<open>std::string\<close> size fits
  \<open>size_t\<close>) and four corners per polygon are the frame contract \<open>frame_wf\<close>, lifted to
  the engine as \<open>engine_wf\<close>; C18 drops the corner count to show what happens without it.
  The ViSP pose solvers are parameters (\<open>pose_lib\<close>): no property of them is assumed,
  and every claim holds for any solver.

  \<^emph>\<open>Not modelled.\<close> The pixel-level tag detector (a parameter \<open>engine\<close>), the
  numerical pose algorithms, ROS transport, tf2 formatting and image conversion (I/O), the
  commented-out code of \<open>drawDebug\<close>, and the chessboard service, \<open>waitForImage\<close> and
  \<open>initTracking\<close>, which are declared in node.hpp with no code in the repository and no
  behaviour in the spec. Concurrency is modelled as the serialisation the mutexes enforce:
  events are steps of \<open>node_step\<close> applied one at a time.

  \<^emph>\<open>Limits.\<close> The node's operations are modelled from the spec because node.cpp is not
  in the repository; in particular the model runs each detector with the node's current
  camera parameters at every frame (the spec's shared read-only parameters), while the
  constructor at line 18 hands them to the base class \<open>Detector\<close>, whose declaration is
  absent. The order within one iteration of \<open>Node::spin\<close> (frame pass, then callbacks) is
  the spec's description, not code. Doubles are modelled as reals, and the base-class
  defaults of a new detector (no object, no corners, identity pose, residual 0) are assumed.
\<close>

section \<open>Definitions spanning components\<close>

text \<open>
  Successive frames seen by one detector: the node calls \<open>detect\<close> once per frame, after
  \<open>analyseImage\<close> has stored that frame's detections; an exception stops the run.
\<close>

fun detect_trace ::
  "pose_lib \<Rightarrow> detector_apriltag \<Rightarrow> apriltag_shared list
     \<Rightarrow> cpp_error + (bool \<times> detector_apriltag) list" where
  "detect_trace L d [] = Inr []"
| "detect_trace L d (sh # shs) =
     then_ok (detect L sh d) (\<lambda>(b, d').
       then_ok (detect_trace L d' shs) (\<lambda>tr. Inr ((b, d') # tr)))"

text \<open>The abstract machine run over the per-frame outcomes \<open>found\<close>.\<close>

fun acquisition_run :: "tag_state \<Rightarrow> bool list \<Rightarrow> tag_state list" where
  "acquisition_run s [] = []"
| "acquisition_run s (f # fs) =
     (let s' = acquisition_step s f True in s' # acquisition_run s' fs)"

section \<open>Lemmas\<close>

lemma detect_trace_step:
  assumes "frame_wf sh"
  obtains d' where "detect L sh d = Inr (list_ex (tag_found (tag_id d)) (detections sh), d')"
    and "state d' = acquisition_step (state d) (list_ex (tag_found (tag_id d)) (detections sh)) True"
    and "tag_id d' = tag_id d"
  using detect_wf_outcome [OF assms, of L d] detect_frame by blast

section \<open>Properties spanning components\<close>

text \<open>
  C6 (refinement): over any sequence of well-formed frames, the run of \<open>detect\<close> calls
  never fails, reports per frame whether the identifier was found, and passes through
  exactly the states of the abstract acquisition machine: acquisition after a miss is
  always a fresh \<open>newly_acquired_object\<close>, consecutive detections are
  \<open>already_acquired_object\<close>.
\<close>

theorem detect_trace_refines:
  assumes "list_all frame_wf shs"
  shows "\<exists>tr. detect_trace L d shs = Inr tr \<and>
              map fst tr = map (\<lambda>sh. list_ex (tag_found (tag_id d)) (detections sh)) shs \<and>
              map (state \<circ> snd) tr =
                acquisition_run (state d) (map (\<lambda>sh. list_ex (tag_found (tag_id d)) (detections sh)) shs)"
  using assms
proof (induction shs arbitrary: d)
  case Nil
  then show ?case by simp
next
  case (Cons sh shs)
  then have wf: "frame_wf sh" and wfs: "list_all frame_wf shs" by simp_all
  obtain d' where step: "detect L sh d = Inr (list_ex (tag_found (tag_id d)) (detections sh), d')"
    and st: "state d' = acquisition_step (state d) (list_ex (tag_found (tag_id d)) (detections sh)) True"
    and tid: "tag_id d' = tag_id d"
    by (rule detect_trace_step [OF wf])
  obtain tr where "detect_trace L d' shs = Inr tr"
    and "map fst tr = map (\<lambda>sh. list_ex (tag_found (tag_id d')) (detections sh)) shs"
    and "map (state \<circ> snd) tr =
           acquisition_run (state d') (map (\<lambda>sh. list_ex (tag_found (tag_id d')) (detections sh)) shs)"
    using Cons.IH [OF wfs] by blast
  then show ?case
    using step st tid by (simp add: Let_def comp_def)
qed

theorem detect_trace_refines_witness:
  "list_all frame_wf [example_frame, example_frame\<lparr>detections := []\<rparr>, example_frame] \<and>
   (\<exists>tr. detect_trace example_lib (new_detector example_cam 3 (1 / 10))
            [example_frame, example_frame\<lparr>detections := []\<rparr>, example_frame] = Inr tr \<and>
         map fst tr = map (\<lambda>sh. list_ex (tag_found 3) (detections sh))
                        [example_frame, example_frame\<lparr>detections := []\<rparr>, example_frame] \<and>
         map (state \<circ> snd) tr =
           acquisition_run no_object (map (\<lambda>sh. list_ex (tag_found 3) (detections sh))
                        [example_frame, example_frame\<lparr>detections := []\<rparr>, example_frame]))"
proof -
  have wf: "list_all frame_wf [example_frame, example_frame\<lparr>detections := []\<rparr>, example_frame]"
    by (simp add: example_eval)
  show ?thesis
    using wf detect_trace_refines [OF wf, of example_lib "new_detector example_cam 3 (1 / 10)"]
    by (simp add: new_detector_def)
qed

end
